theory Spec2Isabelle
  imports Main
begin

section \<open>Data model (parser.js and the type declarations of the repository)\<close>

text \<open>
  Tokens, statements, scanner states and the parse result follow the interfaces
  \<^verbatim>\<open>Token\<close>, \<^verbatim>\<open>Statement\<close>, \<^verbatim>\<open>State\<close> and \<^verbatim>\<open>ParseResult\<close>. Field names carry a suffix
  where two records share a name in the source (\<^verbatim>\<open>type\<close>, \<^verbatim>\<open>start\<close>, \<^verbatim>\<open>end\<close>, \<^verbatim>\<open>value\<close>).
  Offsets are JavaScript numbers that only ever hold integers here: \<open>int\<close>.
  Strings are lists of characters; \<^verbatim>\<open>input.length\<close> is the length of the list.
  The field \<^verbatim>\<open>body\<close> that \<^verbatim>\<open>initState\<close> gives a scanner state is read nowhere in
  parser.js and is left out.
\<close>

datatype token_type =
  Whitespace | CommentInline | CommentBlock | StringTok | Semicolon | Keyword | Unknown

record token =
  type_tok :: token_type
  value_tok :: string
  start_tok :: int
  end_tok :: int

text \<open>
  The fields \<^verbatim>\<open>openBlocks\<close> and \<^verbatim>\<open>definer\<close> of a statement hold \<^verbatim>\<open>undefined\<close>, \<^verbatim>\<open>false\<close>,
  a number or (after \<^verbatim>\<open>undefined--\<close>) \<^verbatim>\<open>NaN\<close>. The operations below are the ones
  parser.js applies to them: \<^verbatim>\<open>x++\<close>, \<^verbatim>\<open>x--\<close>, \<^verbatim>\<open>x === n\<close> and \<^verbatim>\<open>x > n\<close>.
\<close>

datatype jsval = Undefined | JBool bool | JNaN | JNum int

fun to_number :: "jsval \<Rightarrow> int option" where
  "to_number Undefined = None"
| "to_number (JBool b) = Some (if b then 1 else 0)"
| "to_number JNaN = None"
| "to_number (JNum n) = Some n"

definition js_incr :: "jsval \<Rightarrow> jsval" where
  "js_incr v = (case to_number v of None \<Rightarrow> JNaN | Some n \<Rightarrow> JNum (n + 1))"

definition js_decr :: "jsval \<Rightarrow> jsval" where
  "js_decr v = (case to_number v of None \<Rightarrow> JNaN | Some n \<Rightarrow> JNum (n - 1))"

definition js_gt :: "jsval \<Rightarrow> int \<Rightarrow> bool" where
  "js_gt v n = (case to_number v of None \<Rightarrow> False | Some m \<Rightarrow> n < m)"

text \<open>Truthiness of an optional string (\<^verbatim>\<open>undefined\<close> and the empty string are falsy).\<close>

fun truthy :: "string option \<Rightarrow> bool" where
  "truthy None = False"
| "truthy (Some s) = (s \<noteq> [])"

record statement =
  start_stmt :: "int option"
  end_stmt :: "int option"
  type_stmt :: "string option"
  executionType :: "string option"
  endStatement :: "string option"
  canEnd :: bool
  definer :: jsval
  openBlocks :: jsval

text \<open>The object literal \<^verbatim>\<open>{}\<close> every classifier starts from; an unset \<^verbatim>\<open>canEnd\<close> is falsy.\<close>

definition empty_statement :: statement where
  "empty_statement =
     \<lparr>start_stmt = None, end_stmt = None, type_stmt = None, executionType = None,
      endStatement = None, canEnd = False, definer = Undefined, openBlocks = Undefined\<rparr>"

record state =
  input_st :: string
  position :: int
  start_st :: int
  end_st :: int

record parseResult =
  type_res :: string
  start_res :: int
  end_res :: int
  body :: "statement list"
  tokens :: "token list"

text \<open>
  Errors. Every \<^verbatim>\<open>throw new Error(...)\<close> of parser.js is a constructor that keeps the
  values its message is built from; \<open>TypeError\<close> is the error JavaScript raises on
  reading a property of \<^verbatim>\<open>undefined\<close>.
\<close>

datatype error =
  InvalidStatementParser string
| AlreadyEnded
| ExpectedBefore string nat
| ExpectedInstead "(token_type \<times> string) list" token_type string nat
| TypeError

section \<open>Constants of parser.js\<close>

text \<open>
  \<^verbatim>\<open>String.prototype.toUpperCase\<close> on the ASCII letters; the other characters are kept.
\<close>

definition upper_char :: "char \<Rightarrow> char" where
  "upper_char c =
     (let n = (of_char c :: nat) in if 97 \<le> n \<and> n \<le> 122 then char_of (n - 32) else c)"

definition toUpperCase :: "string \<Rightarrow> string" where
  "toUpperCase s = map upper_char s"

definition EXECUTION_TYPES :: "(string \<times> string) list" where
  "EXECUTION_TYPES =
     [(''SELECT'', ''LISTING''),
      (''INSERT'', ''MODIFICATION''),
      (''DELETE'', ''MODIFICATION''),
      (''UPDATE'', ''MODIFICATION''),
      (''CREATE_DATABASE'', ''MODIFICATION''),
      (''CREATE_TABLE'', ''MODIFICATION''),
      (''CREATE_TRIGGER'', ''MODIFICATION''),
      (''CREATE_FUNCTION'', ''MODIFICATION''),
      (''DROP_DATABASE'', ''MODIFICATION''),
      (''DROP_TABLE'', ''MODIFICATION''),
      (''TRUNCATE'', ''MODIFICATION''),
      (''UNKNOWN'', ''UNKNOWN'')]"

text \<open>
  \<^verbatim>\<open>EXECUTION_TYPES[statement.type] || 'UNKNOWN'\<close>: an unset type is looked up under a key
  the table does not have.
\<close>

definition execution_type_of :: "string option \<Rightarrow> string" where
  "execution_type_of ty =
     (case ty of
        None \<Rightarrow> ''UNKNOWN''
      | Some k \<Rightarrow> (case map_of EXECUTION_TYPES k of None \<Rightarrow> ''UNKNOWN'' | Some e \<Rightarrow> e))"

definition dialectsWithOpenBlocks :: "string list" where
  "dialectsWithOpenBlocks = [''psql'']"

definition blockOpeners :: "string list" where
  "blockOpeners = [''BEGIN'', ''IF'', ''LOOP'']"

definition dialectsWithEnds :: "string list" where
  "dialectsWithEnds = [''sqlite'', ''mssql'', ''psql'']"

definition statementsWithEnds :: "string list" where
  "statementsWithEnds = [''CREATE_TRIGGER'', ''CREATE_FUNCTION'']"

text \<open>\<^verbatim>\<open>statementsWithEnds.includes(statement.type)\<close>, false for an unset type.\<close>

definition includes_type :: "string list \<Rightarrow> string option \<Rightarrow> bool" where
  "includes_type xs ty = (case ty of None \<Rightarrow> False | Some k \<Rightarrow> k \<in> set xs)"

definition DIALECTS :: "string list" where
  "DIALECTS = [''mssql'', ''sqlite'', ''mysql'', ''psql'', ''generic'']"

section \<open>The statement classifier\<close>

text \<open>
  A step of a classifier (interface \<^verbatim>\<open>Step\<close>). \<^verbatim>\<open>add\<close> mutates the statement of the
  enclosing closure: here it maps the statement to the mutated one.
\<close>

record validation =
  requireBefore :: "token_type list option"
  acceptTokens :: "(token_type \<times> string) list"

record step =
  preCanGoToNext :: "token \<Rightarrow> bool"
  validation_step :: "validation option"
  add :: "token \<Rightarrow> statement \<Rightarrow> statement"
  postCanGoToNext :: "token \<Rightarrow> bool"

text \<open>
  The object \<^verbatim>\<open>stateMachineStatementParser\<close> returns: the variables its two methods
  close over.
\<close>

record parser =
  statement :: statement
  steps :: "step list"
  currentStepIndex :: nat
  prevToken :: "token option"
  isStrict :: bool
  dialect :: string

record options =
  isStrict_opt :: bool
  dialect_opt :: string

definition stateMachineStatementParser ::
  "statement \<Rightarrow> step list \<Rightarrow> bool \<Rightarrow> string \<Rightarrow> parser" where
  "stateMachineStatementParser stmt stps strict dia =
     \<lparr>statement =
        (if dia \<in> set dialectsWithOpenBlocks then stmt\<lparr>openBlocks := JNum 0\<rparr> else stmt),
      steps = stps, currentStepIndex = 0, prevToken = None,
      isStrict = strict, dialect = dia\<rparr>"

definition isValidToken :: "step \<Rightarrow> token \<Rightarrow> bool" where
  "isValidToken stp tok =
     (case validation_step stp of
        None \<Rightarrow> True
      | Some v \<Rightarrow>
          0 < length (filter (\<lambda>(ty, val).
                 type_tok tok = ty \<and> (val = [] \<or> toUpperCase (value_tok tok) = val))
               (acceptTokens v)))"

text \<open>
  \<^verbatim>\<open>hasRequiredBefore\<close> reads \<^verbatim>\<open>step.requireBefore\<close> on the step itself. No step of
  parser.js has that property (each \<^verbatim>\<open>requireBefore\<close> sits inside \<^verbatim>\<open>validation\<close>), so the
  read gives \<^verbatim>\<open>undefined\<close> and the test is true for every step and previous token.
\<close>

definition hasRequiredBefore :: "step \<Rightarrow> token option \<Rightarrow> bool" where
  "hasRequiredBefore stp prev = True"

text \<open>
  \<^verbatim>\<open>addToken\<close> is a chain of blocks, each of which either returns or falls through to
  the next one; the blocks are defined here from the last to the first, each taking the
  classifier as the blocks before it have left it. The two calls of \<^verbatim>\<open>console.log\<close> have
  no effect on the result and are left out.

  Step matching (lines 477 to 511). \<^verbatim>\<open>steps[currentStepIndex]\<close> beyond the last step is
  \<^verbatim>\<open>undefined\<close>, and calling its method is a \<open>TypeError\<close>.
\<close>

definition addToken_step :: "parser \<Rightarrow> token \<Rightarrow> error + parser" where
  "addToken_step p tok =
     (if truthy (type_stmt (statement p)) then Inr p
      else if length (steps p) \<le> currentStepIndex p then Inl TypeError
      else
       let i = (if preCanGoToNext (steps p ! currentStepIndex p) tok
                then currentStepIndex p + 1 else currentStepIndex p)
       in
       if length (steps p) \<le> i then Inl TypeError
       else
        let currentStep = steps p ! i in
        if \<not> hasRequiredBefore currentStep (prevToken p)
        then Inl (ExpectedBefore (value_tok tok) i)
        else if \<not> isValidToken currentStep tok \<and> isStrict p
        then Inl (ExpectedInstead
                    (case validation_step currentStep of
                       None \<Rightarrow> [] | Some v \<Rightarrow> acceptTokens v)
                    (type_tok tok) (value_tok tok) i)
        else
         let stmt = add currentStep tok (statement p) in
         Inr (p\<lparr>statement :=
                    stmt\<lparr>executionType := Some (execution_type_of (type_stmt stmt))\<rparr>,
                 currentStepIndex := (if postCanGoToNext currentStep tok then i + 1 else i),
                 prevToken := Some tok\<rparr>))"

text \<open>
  The definer clause of MySQL (lines 448 to 475). \<^verbatim>\<open>prevToken.type\<close> is read only where
  the test before it in the same condition holds; with no previous token the read is a
  \<open>TypeError\<close>.
\<close>

definition addToken_definer :: "parser \<Rightarrow> token \<Rightarrow> error + parser" where
  "addToken_definer p tok =
     (let stmt = statement p in
      if dialect p = ''mysql'' \<and> toUpperCase (value_tok tok) = ''DEFINER''
      then Inr (p\<lparr>statement := stmt\<lparr>definer := JNum 0\<rparr>, prevToken := Some tok\<rparr>)
      else if definer stmt = JNum 0 \<and> value_tok tok = ''=''
      then Inr (p\<lparr>statement := stmt\<lparr>definer := js_incr (definer stmt)\<rparr>,
                  prevToken := Some tok\<rparr>)
      else if js_gt (definer stmt) 0
      then
       (if definer stmt = JNum 1 \<and> prevToken p = None then Inl TypeError
        else if definer stmt = JNum 1
                \<and> map_option type_tok (prevToken p) = Some Whitespace
        then Inr (p\<lparr>statement := stmt\<lparr>definer := js_incr (definer stmt)\<rparr>,
                    prevToken := Some tok\<rparr>)
        else if js_gt (definer stmt) 1 \<and> prevToken p = None then Inl TypeError
        else if js_gt (definer stmt) 1
                \<and> map_option type_tok (prevToken p) \<noteq> Some Whitespace
        then Inr (p\<lparr>prevToken := Some tok\<rparr>)
        else addToken_step (p\<lparr>statement := stmt\<lparr>definer := JBool False\<rparr>\<rparr>) tok)
      else addToken_step p tok)"

text \<open>
  Whitespace, the words \<^verbatim>\<open>OR\<close> and \<^verbatim>\<open>REPLACE\<close> of Postgres, and the block openers (lines
  430 to 446).
\<close>

definition addToken_skip :: "parser \<Rightarrow> token \<Rightarrow> error + parser" where
  "addToken_skip p tok =
     (if type_tok tok = Whitespace then Inr (p\<lparr>prevToken := Some tok\<rparr>)
      else if dialect p = ''psql'' \<and> toUpperCase (value_tok tok) \<in> set [''OR'', ''REPLACE'']
      then Inr (p\<lparr>prevToken := Some tok\<rparr>)
      else if dialect p \<in> set dialectsWithOpenBlocks
              \<and> toUpperCase (value_tok tok) \<in> set blockOpeners
      then Inr (p\<lparr>statement :=
                     (statement p)\<lparr>openBlocks := js_incr (openBlocks (statement p))\<rparr>\<rparr>)
      else addToken_definer p tok)"

text \<open>
  The word \<^verbatim>\<open>END\<close> (lines 418 to 428). parser.js holds an unresolved merge of the lines
  between the semicolon test and the \<^verbatim>\<open>OR\<close>/\<^verbatim>\<open>REPLACE\<close> test; the model takes the side that
  counts \<^verbatim>\<open>openBlocks\<close> and handles whitespace (lines 418 to 434), the one the rest of the
  function (\<^verbatim>\<open>blockOpeners\<close>, \<^verbatim>\<open>prevToken\<close>) is written against.
\<close>

definition addToken_end :: "parser \<Rightarrow> token \<Rightarrow> error + parser" where
  "addToken_end p tok =
     (if dialect p \<in> set dialectsWithEnds
         \<and> includes_type statementsWithEnds (type_stmt (statement p))
         \<and> toUpperCase (value_tok tok) = ''END''
      then
       let p1 = p\<lparr>statement :=
                    (statement p)\<lparr>openBlocks := js_decr (openBlocks (statement p))\<rparr>\<rparr>
       in
       if dialect p \<notin> set dialectsWithOpenBlocks \<or> openBlocks (statement p1) = JNum 0
       then Inr (p1\<lparr>statement := (statement p1)\<lparr>canEnd := True\<rparr>\<rparr>)
       else addToken_skip p1 tok
      else addToken_skip p tok)"

text \<open>
  \<^verbatim>\<open>addToken\<close> itself: the test of a terminated statement (lines 380 to 382) and the
  semicolon (lines 384 to 395). A semicolon that a dialect rule suppresses falls through
  to the blocks above, like any other token.
\<close>

definition addToken :: "parser \<Rightarrow> token \<Rightarrow> error + parser" where
  "addToken p tok =
     (let stmt = statement p in
      if truthy (endStatement stmt) then Inl AlreadyEnded
      else if type_tok tok = Semicolon
           \<and> \<not> (dialect p \<in> set dialectsWithEnds
                 \<and> (includes_type statementsWithEnds (type_stmt stmt) \<and> \<not> canEnd stmt))
           \<and> \<not> (dialect p = ''psql'' \<and> type_stmt stmt = Some ''CREATE_FUNCTION''
                 \<and> \<not> canEnd stmt)
      then Inr (p\<lparr>statement := stmt\<lparr>endStatement := Some '';''\<rparr>\<rparr>)
      else addToken_end p tok)"

section \<open>The classifiers\<close>

text \<open>
  Each constructor builds the steps of one statement kind and hands them to
  \<^verbatim>\<open>stateMachineStatementParser\<close>. Only the CREATE classifier passes the dialect on; the
  others leave it out, so that it takes its default \<^verbatim>\<open>'generic'\<close>.
\<close>

definition keyword_step :: "string \<Rightarrow> step" where
  "keyword_step kw =
     \<lparr>preCanGoToNext = (\<lambda>_. False),
      validation_step = Some \<lparr>requireBefore = None, acceptTokens = [(Keyword, kw)]\<rparr>,
      add = (\<lambda>tok stmt. stmt\<lparr>type_stmt := Some kw, start_stmt := Some (start_tok tok)\<rparr>),
      postCanGoToNext = (\<lambda>_. True)\<rparr>"

definition createSelectStatementParser :: "options \<Rightarrow> parser" where
  "createSelectStatementParser opts =
     stateMachineStatementParser empty_statement [keyword_step ''SELECT'']
       (isStrict_opt opts) ''generic''"

definition createInsertStatementParser :: "options \<Rightarrow> parser" where
  "createInsertStatementParser opts =
     stateMachineStatementParser empty_statement [keyword_step ''INSERT'']
       (isStrict_opt opts) ''generic''"

definition createUpdateStatementParser :: "options \<Rightarrow> parser" where
  "createUpdateStatementParser opts =
     stateMachineStatementParser empty_statement [keyword_step ''UPDATE'']
       (isStrict_opt opts) ''generic''"

definition createDeleteStatementParser :: "options \<Rightarrow> parser" where
  "createDeleteStatementParser opts =
     stateMachineStatementParser empty_statement [keyword_step ''DELETE'']
       (isStrict_opt opts) ''generic''"

definition createTruncateStatementParser :: "options \<Rightarrow> parser" where
  "createTruncateStatementParser opts =
     stateMachineStatementParser empty_statement [keyword_step ''TRUNCATE'']
       (isStrict_opt opts) ''generic''"

definition create_steps :: "step list" where
  "create_steps =
     [\<lparr>preCanGoToNext = (\<lambda>_. False),
       validation_step = Some \<lparr>requireBefore = None, acceptTokens = [(Keyword, ''CREATE'')]\<rparr>,
       add = (\<lambda>tok stmt. stmt\<lparr>start_stmt := Some (start_tok tok)\<rparr>),
       postCanGoToNext = (\<lambda>_. True)\<rparr>,
      \<lparr>preCanGoToNext = (\<lambda>_. False),
       validation_step = Some
         \<lparr>requireBefore = Some [Whitespace],
          acceptTokens = [(Keyword, ''TABLE''), (Keyword, ''DATABASE''),
                          (Keyword, ''TRIGGER''), (Keyword, ''FUNCTION'')]\<rparr>,
       add = (\<lambda>tok stmt.
                stmt\<lparr>type_stmt := Some (''CREATE_'' @ toUpperCase (value_tok tok))\<rparr>),
       postCanGoToNext = (\<lambda>_. True)\<rparr>]"

definition createCreateStatementParser :: "options \<Rightarrow> parser" where
  "createCreateStatementParser opts =
     stateMachineStatementParser empty_statement create_steps
       (isStrict_opt opts) (dialect_opt opts)"

definition drop_steps :: "step list" where
  "drop_steps =
     [\<lparr>preCanGoToNext = (\<lambda>_. False),
       validation_step = Some \<lparr>requireBefore = None, acceptTokens = [(Keyword, ''DROP'')]\<rparr>,
       add = (\<lambda>tok stmt. stmt\<lparr>start_stmt := Some (start_tok tok)\<rparr>),
       postCanGoToNext = (\<lambda>_. True)\<rparr>,
      \<lparr>preCanGoToNext = (\<lambda>_. False),
       validation_step = Some
         \<lparr>requireBefore = Some [Whitespace],
          acceptTokens = [(Keyword, ''TABLE''), (Keyword, ''DATABASE'')]\<rparr>,
       add = (\<lambda>tok stmt.
                stmt\<lparr>type_stmt := Some (''DROP_'' @ toUpperCase (value_tok tok))\<rparr>),
       postCanGoToNext = (\<lambda>_. True)\<rparr>]"

definition createDropStatementParser :: "options \<Rightarrow> parser" where
  "createDropStatementParser opts =
     stateMachineStatementParser empty_statement drop_steps
       (isStrict_opt opts) ''generic''"

definition unknown_steps :: "step list" where
  "unknown_steps =
     [\<lparr>preCanGoToNext = (\<lambda>_. False),
       validation_step = None,
       add = (\<lambda>tok stmt.
                stmt\<lparr>type_stmt := Some ''UNKNOWN'', start_stmt := Some (start_tok tok)\<rparr>),
       postCanGoToNext = (\<lambda>_. True)\<rparr>]"

text \<open>
  \<^verbatim>\<open>createUnknownStatementParser\<close> reads \<^verbatim>\<open>isStrict\<close> from its argument; the argument
  \<open>strict\<close> below is the value so read.
\<close>

definition createUnknownStatementParser :: "bool \<Rightarrow> parser" where
  "createUnknownStatementParser strict =
     stateMachineStatementParser empty_statement unknown_steps strict ''generic''"

text \<open>
  \<^verbatim>\<open>createStatementParserByToken\<close>. Its last call passes \<^verbatim>\<open>options.isStrict\<close>, a boolean,
  where an options object is taken apart, so \<^verbatim>\<open>isStrict\<close> is \<^verbatim>\<open>undefined\<close> (falsy) in
  the unknown classifier: \<open>False\<close>, which is also the value of the flag on that path.
\<close>

definition createStatementParserByToken :: "token \<Rightarrow> options \<Rightarrow> error + parser" where
  "createStatementParserByToken tok opts =
     (let up = toUpperCase (value_tok tok) in
      if type_tok tok = Keyword \<and> up = ''SELECT'' then Inr (createSelectStatementParser opts)
      else if type_tok tok = Keyword \<and> up = ''CREATE'' then Inr (createCreateStatementParser opts)
      else if type_tok tok = Keyword \<and> up = ''DROP'' then Inr (createDropStatementParser opts)
      else if type_tok tok = Keyword \<and> up = ''INSERT'' then Inr (createInsertStatementParser opts)
      else if type_tok tok = Keyword \<and> up = ''UPDATE'' then Inr (createUpdateStatementParser opts)
      else if type_tok tok = Keyword \<and> up = ''DELETE'' then Inr (createDeleteStatementParser opts)
      else if type_tok tok = Keyword \<and> up = ''TRUNCATE''
      then Inr (createTruncateStatementParser opts)
      else if \<not> isStrict_opt opts \<and> type_tok tok = Unknown
      then Inr (createUnknownStatementParser False)
      else Inl (InvalidStatementParser (value_tok tok)))"

section \<open>The top-level splitter\<close>

definition initState_input :: "string \<Rightarrow> state" where
  "initState_input inp =
     \<lparr>input_st = inp, position = - 1, start_st = 0, end_st = int (length inp) - 1\<rparr>"

definition initState_prev :: "state \<Rightarrow> state" where
  "initState_prev prevState =
     \<lparr>input_st = input_st prevState, position = position prevState,
      start_st = position prevState + 1,
      end_st = int (length (input_st prevState)) - 1\<rparr>"

definition ignoreOutsideBlankTokens :: "token_type list" where
  "ignoreOutsideBlankTokens = [Whitespace, CommentInline, CommentBlock]"

text \<open>
  \<^verbatim>\<open>scanToken\<close> is imported from the module \<^verbatim>\<open>./tokenizer\<close>, which is not part of the
  sources at hand. It is a parameter of the splitter: a function from the state it is
  given to the token it returns and the state it leaves (it advances \<^verbatim>\<open>position\<close>).
\<close>

type_synonym scanner = "state \<Rightarrow> token \<times> state"

text \<open>The variables of the loop of \<^verbatim>\<open>parse\<close>.\<close>

record loop =
  prevState :: state
  statementParser :: "parser option"
  topLevelStatement :: parseResult

text \<open>One turn of the \<^verbatim>\<open>while\<close> loop of \<^verbatim>\<open>parse\<close>.\<close>

definition parse_iter :: "scanner \<Rightarrow> options \<Rightarrow> loop \<Rightarrow> error + loop" where
  "parse_iter scanToken opts l =
     (let (tok, tokenState) = scanToken (initState_prev (prevState l));
          top = topLevelStatement l;
          pushed = top\<lparr>tokens := tokens top @ [tok]\<rparr>
      in
      if statementParser l = None \<and> type_tok tok \<in> set ignoreOutsideBlankTokens
      then Inr (l\<lparr>prevState := tokenState, topLevelStatement := pushed\<rparr>)
      else
       case (case statementParser l of
               None \<Rightarrow> createStatementParserByToken tok opts
             | Some sp \<Rightarrow> Inr sp) of
         Inl e \<Rightarrow> Inl e
       | Inr sp \<Rightarrow>
          (case addToken sp tok of
             Inl e \<Rightarrow> Inl e
           | Inr sp' \<Rightarrow>
              if truthy (endStatement (statement sp'))
              then Inr \<lparr>prevState = tokenState, statementParser = None,
                        topLevelStatement =
                          pushed\<lparr>body := body pushed
                                     @ [(statement sp')\<lparr>end_stmt := Some (end_tok tok)\<rparr>]\<rparr>\<rparr>
              else Inr \<lparr>prevState = tokenState, statementParser = Some sp',
                        topLevelStatement = pushed\<rparr>))"

text \<open>
  The loop itself. Whether it ends depends on the scanner, so it is a partial function:
  \<open>None\<close> is a loop that never ends, \<open>Some (Inl e)\<close> an error thrown in its body.
\<close>

partial_function (option) parse_loop ::
  "scanner \<Rightarrow> options \<Rightarrow> int \<Rightarrow> loop \<Rightarrow> (error + loop) option" where
  "parse_loop scanToken opts top_end l =
     (if position (prevState l) < top_end
      then (case parse_iter scanToken opts l of
              Inl e \<Rightarrow> Some (Inl e)
            | Inr l' \<Rightarrow> parse_loop scanToken opts top_end l')
      else Some (Inr l))"

text \<open>The code after the loop: the last statement, when it has no ending key.\<close>

definition parse_finish :: "loop \<Rightarrow> parseResult" where
  "parse_finish l =
     (let top = topLevelStatement l in
      case statementParser l of
        None \<Rightarrow> top
      | Some sp \<Rightarrow>
          if \<not> truthy (endStatement (statement sp))
          then top\<lparr>body := body top @ [(statement sp)\<lparr>end_stmt := Some (end_res top)\<rparr>]\<rparr>
          else top)"

definition parse :: "scanner \<Rightarrow> string \<Rightarrow> bool \<Rightarrow> string \<Rightarrow> (error + parseResult) option" where
  "parse scanToken inp strict dia =
     (let topLevelState = initState_input inp;
          top = \<lparr>type_res = ''QUERY'', start_res = 0, end_res = int (length inp) - 1,
                 body = [], tokens = []\<rparr>
      in
      case parse_loop scanToken \<lparr>isStrict_opt = strict, dialect_opt = dia\<rparr>
             (end_st topLevelState)
             \<lparr>prevState = topLevelState, statementParser = None, topLevelStatement = top\<rparr> of
        None \<Rightarrow> None
      | Some (Inl e) \<Rightarrow> Some (Inl e)
      | Some (Inr l) \<Rightarrow> Some (Inr (parse_finish l)))"

section \<open>Runs of a classifier, the scanner's contract and example inputs\<close>

text \<open>
  The calls of \<^verbatim>\<open>addToken\<close> the splitter makes on one classifier, one per token, up to
  the first error.
\<close>

fun addTokens :: "parser \<Rightarrow> token list \<Rightarrow> error + parser" where
  "addTokens p [] = Inr p"
| "addTokens p (t # ts) =
     (case addToken p t of Inl e \<Rightarrow> Inl e | Inr p' \<Rightarrow> addTokens p' ts)"

text \<open>
  What the splitter relies on from the scanner (spec, section 4.1: one token starting at
  the cursor, and the new cursor): on a state whose cursor lies inside the input, the
  token starts at \<^verbatim>\<open>state.start\<close>, is not empty (its \<^verbatim>\<open>end\<close> is the offset of its last
  character), and the scanner leaves \<^verbatim>\<open>position\<close> on that last character, the input
  untouched.
\<close>

definition scanner_ok :: "scanner \<Rightarrow> bool" where
  "scanner_ok scanToken =
     (\<forall>st. 0 \<le> start_st st \<and> start_st st = position st + 1
            \<and> start_st st < int (length (input_st st)) \<longrightarrow>
        (case scanToken st of
           (tok, st') \<Rightarrow>
             start_tok tok = start_st st \<and> start_tok tok \<le> end_tok tok
             \<and> position st' = end_tok tok \<and> input_st st' = input_st st))"

text \<open>
  Modelled from the spec: \<^verbatim>\<open>scanToken\<close> (module \<^verbatim>\<open>./tokenizer\<close>) is missing from the
  sources, and the spec leaves its reserved words and its quoting rules open. For a
  concrete input the scanner is therefore given by its output: \<open>scan_tokens ts\<close> returns
  the token of \<open>ts\<close> that starts at the cursor and moves the cursor to its end; where
  \<open>ts\<close> has no such token it returns the one character at the cursor as a token of type
  unknown, the scanner's last resort in the spec.
\<close>

fun scan_tokens :: "token list \<Rightarrow> scanner" where
  "scan_tokens [] st =
     (\<lparr>type_tok = Unknown, value_tok = take 1 (drop (nat (start_st st)) (input_st st)),
       start_tok = start_st st, end_tok = start_st st\<rparr>,
      st\<lparr>position := start_st st\<rparr>)"
| "scan_tokens (t # ts) st =
     (if start_tok t = start_st st then (t, st\<lparr>position := end_tok t\<rparr>)
      else scan_tokens ts st)"

definition tk :: "token_type \<Rightarrow> string \<Rightarrow> int \<Rightarrow> int \<Rightarrow> token" where
  "tk ty v s e = \<lparr>type_tok = ty, value_tok = v, start_tok = s, end_tok = e\<rparr>"

text \<open>
  The token lists below split their input as the spec's scanner does: runs of
  whitespace, semicolons, words, and single characters otherwise. A word is a keyword
  token when it is one of the words the classifiers accept as keywords (\<^verbatim>\<open>SELECT\<close>,
  \<^verbatim>\<open>INSERT\<close>, \<^verbatim>\<open>UPDATE\<close>, \<^verbatim>\<open>DELETE\<close>, \<^verbatim>\<open>TRUNCATE\<close>, \<^verbatim>\<open>CREATE\<close>, \<^verbatim>\<open>DROP\<close>, \<^verbatim>\<open>TABLE\<close>,
  \<^verbatim>\<open>DATABASE\<close>, \<^verbatim>\<open>TRIGGER\<close>, \<^verbatim>\<open>FUNCTION\<close>) and a token of type unknown otherwise.
\<close>

definition select_delete_input :: string where
  "select_delete_input = ''SELECT 1; DELETE FROM t''"

definition select_delete_tokens :: "token list" where
  "select_delete_tokens =
     [tk Keyword ''SELECT'' 0 5,
      tk Whitespace '' '' 6 6,
      tk Unknown ''1'' 7 7,
      tk Semicolon '';'' 8 8,
      tk Whitespace '' '' 9 9,
      tk Keyword ''DELETE'' 10 15,
      tk Whitespace '' '' 16 16,
      tk Unknown ''FROM'' 17 20,
      tk Whitespace '' '' 21 21,
      tk Unknown ''t'' 22 22]"

definition trigger_input :: string where
  "trigger_input = ''CREATE TRIGGER t AFTER INSERT ON a BEGIN UPDATE a SET b=1; END;''"

definition trigger_tokens :: "token list" where
  "trigger_tokens =
     [tk Keyword ''CREATE'' 0 5,
      tk Whitespace '' '' 6 6,
      tk Keyword ''TRIGGER'' 7 13,
      tk Whitespace '' '' 14 14,
      tk Unknown ''t'' 15 15,
      tk Whitespace '' '' 16 16,
      tk Unknown ''AFTER'' 17 21,
      tk Whitespace '' '' 22 22,
      tk Keyword ''INSERT'' 23 28,
      tk Whitespace '' '' 29 29,
      tk Unknown ''ON'' 30 31,
      tk Whitespace '' '' 32 32,
      tk Unknown ''a'' 33 33,
      tk Whitespace '' '' 34 34,
      tk Unknown ''BEGIN'' 35 39,
      tk Whitespace '' '' 40 40,
      tk Keyword ''UPDATE'' 41 46,
      tk Whitespace '' '' 47 47,
      tk Unknown ''a'' 48 48,
      tk Whitespace '' '' 49 49,
      tk Unknown ''SET'' 50 52,
      tk Whitespace '' '' 53 53,
      tk Unknown ''b'' 54 54,
      tk Unknown ''='' 55 55,
      tk Unknown ''1'' 56 56,
      tk Semicolon '';'' 57 57,
      tk Whitespace '' '' 58 58,
      tk Unknown ''END'' 59 61,
      tk Semicolon '';'' 62 62]"

definition grant_input :: string where
  "grant_input = ''GRANT ALL;''"

definition grant_tokens :: "token list" where
  "grant_tokens =
     [tk Unknown ''GRANT'' 0 4,
      tk Whitespace '' '' 5 5,
      tk Unknown ''ALL'' 6 8,
      tk Semicolon '';'' 9 9]"

definition definer_tight_input :: string where
  "definer_tight_input = ''CREATE DEFINER=u@h FUNCTION f();''"

definition definer_tight_tokens :: "token list" where
  "definer_tight_tokens =
     [tk Keyword ''CREATE'' 0 5,
      tk Whitespace '' '' 6 6,
      tk Unknown ''DEFINER'' 7 13,
      tk Unknown ''='' 14 14,
      tk Unknown ''u'' 15 15,
      tk Unknown ''@'' 16 16,
      tk Unknown ''h'' 17 17,
      tk Whitespace '' '' 18 18,
      tk Keyword ''FUNCTION'' 19 26,
      tk Whitespace '' '' 27 27,
      tk Unknown ''f'' 28 28,
      tk Unknown ''('' 29 29,
      tk Unknown '')'' 30 30,
      tk Semicolon '';'' 31 31]"

definition definer_spaced_input :: string where
  "definer_spaced_input = ''CREATE DEFINER = u@h FUNCTION f();''"

definition definer_spaced_tokens :: "token list" where
  "definer_spaced_tokens =
     [tk Keyword ''CREATE'' 0 5,
      tk Whitespace '' '' 6 6,
      tk Unknown ''DEFINER'' 7 13,
      tk Whitespace '' '' 14 14,
      tk Unknown ''='' 15 15,
      tk Whitespace '' '' 16 16,
      tk Unknown ''u'' 17 17,
      tk Unknown ''@'' 18 18,
      tk Unknown ''h'' 19 19,
      tk Whitespace '' '' 20 20,
      tk Keyword ''FUNCTION'' 21 28,
      tk Whitespace '' '' 29 29,
      tk Unknown ''f'' 30 30,
      tk Unknown ''('' 31 31,
      tk Unknown '')'' 32 32,
      tk Semicolon '';'' 33 33]"

definition function_input :: string where
  "function_input = ''CREATE FUNCTION f();''"

definition function_tokens :: "token list" where
  "function_tokens =
     [tk Keyword ''CREATE'' 0 5,
      tk Whitespace '' '' 6 6,
      tk Keyword ''FUNCTION'' 7 14,
      tk Whitespace '' '' 15 15,
      tk Unknown ''f'' 16 16,
      tk Unknown ''('' 17 17,
      tk Unknown '')'' 18 18,
      tk Semicolon '';'' 19 19]"


definition semicolon_token :: token where
  "semicolon_token = tk Semicolon '';'' 0 0"

section \<open>Predicates of the properties proved below\<close>

text \<open>
  The execution-type table as the spec words it (section 4.3): \<^verbatim>\<open>SELECT\<close> lists, ten
  types modify, anything else, an unset type included, is unknown.
\<close>

definition spec_execution_type :: "string option \<Rightarrow> string" where
  "spec_execution_type ty =
     (if ty = Some ''SELECT'' then ''LISTING''
      else if ty \<in> Some ` {''INSERT'', ''UPDATE'', ''DELETE'', ''TRUNCATE'', ''CREATE_DATABASE'',
                  ''CREATE_TABLE'', ''CREATE_TRIGGER'', ''CREATE_FUNCTION'', ''DROP_DATABASE'',
                  ''DROP_TABLE''}
      then ''MODIFICATION''
      else ''UNKNOWN'')"

text \<open>The execution type of a statement is the one \<^verbatim>\<open>EXECUTION_TYPES\<close> gives for its type.\<close>

definition exec_ok :: "statement \<Rightarrow> bool" where
  "exec_ok s = (executionType s = Some (execution_type_of (type_stmt s)))"

definition exec_inv :: "loop \<Rightarrow> bool" where
  "exec_inv l =
     ((\<forall>s\<in>set (body (topLevelStatement l)). exec_ok s)
      \<and> (case statementParser l of None \<Rightarrow> True | Some sp \<Rightarrow> exec_ok (statement sp)))"

text \<open>The seven words that select a classifier.\<close>

definition leading_keywords :: "string list" where
  "leading_keywords =
     [''SELECT'', ''INSERT'', ''UPDATE'', ''DELETE'', ''CREATE'', ''DROP'', ''TRUNCATE'']"

text \<open>
  Order of two statements of a body: the first starts no later than the second, and
  their ranges \<open>[start, end]\<close> share no offset. A statement with an offset left unset is
  neither ordered nor disjoint.
\<close>

definition start_le :: "statement \<Rightarrow> statement \<Rightarrow> bool" where
  "start_le s t =
     (case (start_stmt s, start_stmt t) of (Some a, Some c) \<Rightarrow> a \<le> c | _ \<Rightarrow> False)"

definition ranges_disjoint :: "statement \<Rightarrow> statement \<Rightarrow> bool" where
  "ranges_disjoint s t =
     (case (start_stmt s, end_stmt s, start_stmt t, end_stmt t) of
        (Some a, Some b, Some c, Some d) \<Rightarrow> b < c \<or> d < a
      | _ \<Rightarrow> False)"

text \<open>
  \<open>ordered_from lo ss\<close>: the statements of \<open>ss\<close> come one after the other, the first one
  after offset \<open>lo\<close>, none of them empty; the result is the end of the last one (\<open>lo\<close>
  for no statement), \<open>None\<close> where the order is broken.
\<close>

fun ordered_from :: "int \<Rightarrow> statement list \<Rightarrow> int option" where
  "ordered_from lo [] = Some lo"
| "ordered_from lo (s # ss) =
     (case (start_stmt s, end_stmt s) of
        (Some a, Some b) \<Rightarrow> if lo < a \<and> a \<le> b then ordered_from b ss else None
      | _ \<Rightarrow> None)"

text \<open>
  A classifier that will not move the start of its statement any more: the type is set
  (later tokens are inert), or it is the CREATE or DROP classifier waiting at its second
  step, which sets the type only.
\<close>

definition keeps_start :: "parser \<Rightarrow> bool" where
  "keeps_start p =
     (truthy (type_stmt (statement p))
      \<or> ((steps p = create_steps \<or> steps p = drop_steps) \<and> currentStepIndex p = 1))"

text \<open>
  The invariant of the loop of \<^verbatim>\<open>parse\<close> on input \<open>inp\<close>: the sealed statements are in
  order and end at or before the cursor; the statement of the active classifier starts
  after them, at or before the cursor and inside the input.
\<close>

definition order_inv :: "string \<Rightarrow> loop \<Rightarrow> bool" where
  "order_inv inp l =
     (let pos = position (prevState l); e = int (length inp) - 1 in
      input_st (prevState l) = inp \<and> - 1 \<le> pos
      \<and> end_res (topLevelStatement l) = e
      \<and> (case ordered_from (- 1) (body (topLevelStatement l)) of
            None \<Rightarrow> False
          | Some m \<Rightarrow>
              m \<le> pos
              \<and> (case statementParser l of
                    None \<Rightarrow> True
                  | Some sp \<Rightarrow>
                      \<not> truthy (endStatement (statement sp)) \<and> keeps_start sp
                      \<and> (case start_stmt (statement sp) of
                            None \<Rightarrow> False
                          | Some a \<Rightarrow> m < a \<and> a \<le> pos \<and> a \<le> e))))"

text \<open>
  What holds of the CREATE classifier of dialect \<open>dia\<close> after any tokens: it keeps its
  dialect and its steps; outside MySQL no definer clause is ever opened; in a dialect
  that counts open blocks the counter is a number (it starts at 0).
\<close>

fun is_num :: "jsval \<Rightarrow> bool" where
  "is_num (JNum n) = True"
| "is_num v = False"

definition create_inv :: "string \<Rightarrow> parser \<Rightarrow> bool" where
  "create_inv dia p =
     (dialect p = dia \<and> steps p = create_steps
      \<and> (dia \<noteq> ''mysql'' \<longrightarrow> definer (statement p) = Undefined)
      \<and> (dia \<in> set dialectsWithOpenBlocks \<longrightarrow> is_num (openBlocks (statement p))))"

definition nested_input :: string where
  "nested_input = ''CREATE FUNCTION f() BEGIN BEGIN x; END; END;''"

definition nested_tokens :: "token list" where
  "nested_tokens =
     [tk Keyword ''CREATE'' 0 5,
      tk Whitespace '' '' 6 6,
      tk Keyword ''FUNCTION'' 7 14,
      tk Whitespace '' '' 15 15,
      tk Unknown ''f'' 16 16,
      tk Unknown ''('' 17 17,
      tk Unknown '')'' 18 18,
      tk Whitespace '' '' 19 19,
      tk Unknown ''BEGIN'' 20 24,
      tk Whitespace '' '' 25 25,
      tk Unknown ''BEGIN'' 26 30,
      tk Whitespace '' '' 31 31,
      tk Unknown ''x'' 32 32,
      tk Semicolon '';'' 33 33,
      tk Whitespace '' '' 34 34,
      tk Unknown ''END'' 35 37,
      tk Semicolon '';'' 38 38,
      tk Whitespace '' '' 39 39,
      tk Unknown ''END'' 40 42,
      tk Semicolon '';'' 43 43]"

text \<open>What a classifier has found out about its statement: type, execution type, start.\<close>

definition classification :: "parser \<Rightarrow> string option \<times> string option \<times> int option" where
  "classification p =
     (type_stmt (statement p), executionType (statement p), start_stmt (statement p))"

text \<open>
  A dialect that none of the dialect rules of \<^verbatim>\<open>addToken\<close> names. Two classifiers that
  differ in such a dialect at most, and two states of the loop of \<^verbatim>\<open>parse\<close> that differ in
  the dialect of the active classifier at most.
\<close>

definition plain_dialect :: "string \<Rightarrow> bool" where
  "plain_dialect dia =
     (dia \<noteq> ''psql'' \<and> dia \<noteq> ''mysql'' \<and> dia \<notin> set dialectsWithEnds
      \<and> dia \<notin> set dialectsWithOpenBlocks)"

definition same_but_dialect :: "parser \<Rightarrow> parser \<Rightarrow> bool" where
  "same_but_dialect p q =
     (statement p = statement q \<and> steps p = steps q
      \<and> currentStepIndex p = currentStepIndex q \<and> prevToken p = prevToken q
      \<and> isStrict p = isStrict q \<and> plain_dialect (dialect p) \<and> plain_dialect (dialect q))"

definition same_loop :: "loop \<Rightarrow> loop \<Rightarrow> bool" where
  "same_loop l l' =
     (prevState l = prevState l' \<and> topLevelStatement l = topLevelStatement l'
      \<and> rel_option same_but_dialect (statementParser l) (statementParser l'))"

text \<open>The cursor of the loop of \<^verbatim>\<open>parse\<close> on input \<open>inp\<close>: inside the input or just before it.\<close>

definition cursor_inv :: "string \<Rightarrow> loop \<Rightarrow> bool" where
  "cursor_inv inp l = (input_st (prevState l) = inp \<and> - 1 \<le> position (prevState l))"

text \<open>
  A trigger whose body holds a nested block, \<^verbatim>\<open>BEGIN BEGIN x; END; END;\<close>, with the tokens
  the scanner gives for it.
\<close>

definition nested_trigger_input :: string where
  "nested_trigger_input = ''CREATE TRIGGER t BEGIN BEGIN x; END; END;''"

definition nested_trigger_tokens :: "token list" where
  "nested_trigger_tokens =
     [tk Keyword ''CREATE'' 0 5,
      tk Whitespace '' '' 6 6,
      tk Keyword ''TRIGGER'' 7 13,
      tk Whitespace '' '' 14 14,
      tk Unknown ''t'' 15 15,
      tk Whitespace '' '' 16 16,
      tk Unknown ''BEGIN'' 17 21,
      tk Whitespace '' '' 22 22,
      tk Unknown ''BEGIN'' 23 27,
      tk Whitespace '' '' 28 28,
      tk Unknown ''x'' 29 29,
      tk Semicolon '';'' 30 30,
      tk Whitespace '' '' 31 31,
      tk Unknown ''END'' 32 34,
      tk Semicolon '';'' 35 35,
      tk Whitespace '' '' 36 36,
      tk Unknown ''END'' 37 39,
      tk Semicolon '';'' 40 40]"

section \<open>Evaluation and the loop of the splitter\<close>

lemmas parser_eval =
  parse_def parse_loop.simps parse_iter_def parse_finish_def initState_input_def
  initState_prev_def tk_def ignoreOutsideBlankTokens_def createStatementParserByToken_def
  toUpperCase_def upper_char_def char_of_eq_iff createSelectStatementParser_def
  createInsertStatementParser_def createUpdateStatementParser_def
  createDeleteStatementParser_def createTruncateStatementParser_def
  createCreateStatementParser_def createDropStatementParser_def
  createUnknownStatementParser_def stateMachineStatementParser_def keyword_step_def
  create_steps_def drop_steps_def unknown_steps_def empty_statement_def addToken_def
  addToken_end_def addToken_skip_def addToken_definer_def addToken_step_def
  Let_def dialectsWithEnds_def dialectsWithOpenBlocks_def includes_type_def
  statementsWithEnds_def blockOpeners_def js_gt_def js_incr_def js_decr_def
  hasRequiredBefore_def isValidToken_def execution_type_of_def EXECUTION_TYPES_def

text \<open>
  An invariant of the loop: what holds of the loop variables at the start and is kept by
  every turn that throws no error holds when the loop ends, and the cursor has then
  reached the end of the input.
\<close>

lemma parse_loop_invariant:
  assumes run: "parse_loop scanToken opts e l = Some r"
    and init: "I l"
    and step: "\<And>l l1. I l \<Longrightarrow> position (prevState l) < e \<Longrightarrow>
                 parse_iter scanToken opts l = Inr l1 \<Longrightarrow> I l1"
  shows "case r of Inl err \<Rightarrow> True | Inr l' \<Rightarrow> I l' \<and> \<not> position (prevState l') < e"
  using run init step
proof (induction scanToken opts e l r rule: parse_loop.raw_induct)
  case (1 f sc op en l r)
  note IH = "1.IH" and eq = "1.hyps" and inv = \<open>I l\<close>
    and run = \<open>parse_loop sc op en l = Some r\<close>
  have stp: "\<And>l l1. I l \<Longrightarrow> position (prevState l) < en \<Longrightarrow>
                 parse_iter sc op l = Inr l1 \<Longrightarrow> I l1" by fact
  show ?case
  proof (cases "position (prevState l) < en")
    case True
    show ?thesis
    proof (cases "parse_iter sc op l")
      case (Inl err)
      with True eq show ?thesis by auto
    next
      case (Inr l1)
      with True eq have "f sc op en l1 = Some r" by simp
      moreover from run True Inr have "parse_loop sc op en l1 = Some r"
        by (subst (asm) parse_loop.simps) simp
      moreover have "I l1" using stp [OF inv True Inr] .
      ultimately show ?thesis using IH stp by blast
    qed
  next
    case False
    with eq inv show ?thesis by auto
  qed
qed (rule run)

text \<open>
  With a scanner that keeps its contract every turn moves the cursor forward, so the
  loop ends and \<^verbatim>\<open>parse\<close> returns: a result or an error.
\<close>

lemma parse_iter_cursor:
  assumes ok: "scanner_ok scanToken" and inv: "cursor_inv inp l"
    and lt: "position (prevState l) < int (length inp) - 1"
    and it: "parse_iter scanToken opts l = Inr l1"
  shows "cursor_inv inp l1 \<and> position (prevState l) < position (prevState l1)"
proof -
  let ?st = "initState_prev (prevState l)"
  obtain tok st' where sc: "scanToken ?st = (tok, st')" by (cases "scanToken ?st")
  from inv lt have "0 \<le> start_st ?st \<and> start_st ?st = position ?st + 1
                \<and> start_st ?st < int (length (input_st ?st))"
    by (simp add: initState_prev_def cursor_inv_def)
  with ok sc have "start_tok tok = start_st ?st \<and> start_tok tok \<le> end_tok tok
             \<and> position st' = end_tok tok \<and> input_st st' = input_st ?st"
    unfolding scanner_ok_def by (metis (mono_tags, lifting) case_prod_conv)
  with inv have t: "position (prevState l) < position st'" "input_st st' = inp"
    by (simp_all add: initState_prev_def cursor_inv_def)
  from it sc have "prevState l1 = st'"
    by (auto simp add: parse_iter_def Let_def split: if_splits sum.splits)
  with t inv show ?thesis by (simp add: cursor_inv_def)
qed

lemma parse_loop_returns:
  assumes ok: "scanner_ok scanToken" and inv: "cursor_inv inp l"
  shows "\<exists>r. parse_loop scanToken opts (int (length inp) - 1) l = Some r"
  using inv
proof (induction "nat (int (length inp) - 1 - position (prevState l))" arbitrary: l
    rule: less_induct)
  case less
  show ?case
  proof (cases "position (prevState l) < int (length inp) - 1")
    case False
    then show ?thesis by (subst parse_loop.simps) simp
  next
    case True
    show ?thesis
    proof (cases "parse_iter scanToken opts l")
      case (Inl e)
      with True show ?thesis by (subst parse_loop.simps) simp
    next
      case (Inr l1)
      from parse_iter_cursor [OF ok less.prems True Inr]
      have c: "cursor_inv inp l1" "position (prevState l) < position (prevState l1)"
        by simp_all
      with True have "nat (int (length inp) - 1 - position (prevState l1))
                        < nat (int (length inp) - 1 - position (prevState l))"
        by simp
      from less.hyps [OF this c(1)] True Inr show ?thesis
        by (subst parse_loop.simps) simp
    qed
  qed
qed

lemma parse_returns:
  assumes "scanner_ok scanToken"
  shows "\<exists>r. parse scanToken inp strict dia = Some r"
proof -
  have "cursor_inv inp \<lparr>prevState = initState_input inp, statementParser = None,
          topLevelStatement = \<lparr>type_res = ''QUERY'', start_res = 0,
            end_res = int (length inp) - 1, body = [], tokens = []\<rparr>\<rparr>"
    by (simp add: cursor_inv_def initState_input_def)
  from parse_loop_returns [OF assms this, of "\<lparr>isStrict_opt = strict, dialect_opt = dia\<rparr>"]
  obtain r where "parse_loop scanToken \<lparr>isStrict_opt = strict, dialect_opt = dia\<rparr>
      (int (length inp) - 1)
      \<lparr>prevState = initState_input inp, statementParser = None,
          topLevelStatement = \<lparr>type_res = ''QUERY'', start_res = 0,
            end_res = int (length inp) - 1, body = [], tokens = []\<rparr>\<rparr> = Some r"
    by blast
  then show ?thesis
    by (cases r) (simp_all add: parse_def Let_def initState_input_def)
qed

text \<open>The token lists of the examples spell their inputs.\<close>

lemma example_tokens_cover:
  "concat (map value_tok select_delete_tokens) = select_delete_input"
  "concat (map value_tok trigger_tokens) = trigger_input"
  "concat (map value_tok grant_tokens) = grant_input"
  "concat (map value_tok definer_tight_tokens) = definer_tight_input"
  "concat (map value_tok definer_spaced_tokens) = definer_spaced_input"
  "concat (map value_tok function_tokens) = function_input"
  "concat (map value_tok nested_tokens) = nested_input"
  "concat (map value_tok nested_trigger_tokens) = nested_trigger_input"
  by (simp_all add: tk_def select_delete_tokens_def select_delete_input_def
      trigger_tokens_def trigger_input_def grant_tokens_def grant_input_def
      definer_tight_tokens_def definer_tight_input_def definer_spaced_tokens_def
      definer_spaced_input_def function_tokens_def function_input_def
      nested_tokens_def nested_input_def nested_trigger_tokens_def
      nested_trigger_input_def)

text \<open>
  Whole runs of \<^verbatim>\<open>parse\<close>: the trigger under \<^verbatim>\<open>sqlite\<close> is one statement that ends at the
  last semicolon; so is the function with nested blocks under \<^verbatim>\<open>psql\<close>; \<^verbatim>\<open>GRANT ALL;\<close> is
  an \<^verbatim>\<open>UNKNOWN\<close> statement in non-strict mode and an error in strict mode; the function
  with a definer clause is a \<^verbatim>\<open>CREATE_FUNCTION\<close> under \<^verbatim>\<open>mysql\<close>.
\<close>

lemma parse_examples:
  "map_option (map_sum id body)
     (parse (scan_tokens trigger_tokens) trigger_input True ''sqlite'')
   = Some (Inr [\<lparr>start_stmt = Some 0, end_stmt = Some 62,
                  type_stmt = Some ''CREATE_TRIGGER'', executionType = Some ''MODIFICATION'',
                  endStatement = Some '';'', canEnd = True, definer = Undefined,
                  openBlocks = JNaN\<rparr>])"
  "map_option (map_sum id body)
     (parse (scan_tokens nested_tokens) nested_input True ''psql'')
   = Some (Inr [\<lparr>start_stmt = Some 0, end_stmt = Some 43,
                  type_stmt = Some ''CREATE_FUNCTION'', executionType = Some ''MODIFICATION'',
                  endStatement = Some '';'', canEnd = True, definer = Undefined,
                  openBlocks = JNum 0\<rparr>])"
  "map_option (map_sum id body)
     (parse (scan_tokens grant_tokens) grant_input False ''generic'')
   = Some (Inr [\<lparr>start_stmt = Some 0, end_stmt = Some 9,
                  type_stmt = Some ''UNKNOWN'', executionType = Some ''UNKNOWN'',
                  endStatement = Some '';'', canEnd = False, definer = Undefined,
                  openBlocks = Undefined\<rparr>])"
  "map_option (map_sum id body)
     (parse (scan_tokens grant_tokens) grant_input True ''generic'')
   = Some (Inl (InvalidStatementParser ''GRANT''))"
  "map_option (map_sum id body)
     (parse (scan_tokens definer_spaced_tokens) definer_spaced_input True ''mysql'')
   = Some (Inr [\<lparr>start_stmt = Some 0, end_stmt = Some 33,
                  type_stmt = Some ''CREATE_FUNCTION'', executionType = Some ''MODIFICATION'',
                  endStatement = Some '';'', canEnd = False, definer = JBool False,
                  openBlocks = Undefined\<rparr>])"
  by (simp_all add: parser_eval trigger_tokens_def trigger_input_def nested_tokens_def
      nested_input_def grant_tokens_def grant_input_def definer_spaced_tokens_def
      definer_spaced_input_def)

section \<open>A terminated statement takes no further token\<close>

text \<open>
  Claim C9. Feeding a token through \<^verbatim>\<open>addToken\<close> to a classifier whose statement has
  \<^verbatim>\<open>endStatement\<close> set raises the error "This statement has already got to the end.",
  whatever the token, the classifier and its strictness flag: the test is the first
  thing \<^verbatim>\<open>addToken\<close> does, before any branch that reads \<^verbatim>\<open>isStrict\<close>.
\<close>

theorem addToken_already_ended:
  "truthy (endStatement (statement p)) \<Longrightarrow> addToken p tok = Inl AlreadyEnded"
  by (simp add: addToken_def)

text \<open>
  The SELECT classifier, in non-strict mode, after \<^verbatim>\<open>SELECT\<close> and a semicolon: its
  statement is terminated, and one more token is refused.
\<close>

theorem addToken_already_ended_witness:
  "(case addTokens (createSelectStatementParser \<lparr>isStrict_opt = False, dialect_opt = ''generic''\<rparr>)
           [tk Keyword ''select'' 0 5, tk Semicolon '';'' 6 6] of
      Inl e \<Rightarrow> False
    | Inr p \<Rightarrow> truthy (endStatement (statement p))
               \<and> addToken p (tk Whitespace '' '' 7 7) = Inl AlreadyEnded)"
proof -
  obtain p where p: "addTokens (createSelectStatementParser
                        \<lparr>isStrict_opt = False, dialect_opt = ''generic''\<rparr>)
                       [tk Keyword ''select'' 0 5, tk Semicolon '';'' 6 6] = Inr p"
    and e: "truthy (endStatement (statement p))"
    by (simp add: parser_eval)
  from addToken_already_ended [OF e, of "tk Whitespace '' '' 7 7"] p e
  show ?thesis by simp
qed

section \<open>The empty input\<close>

text \<open>
  Claim C10. For the empty input, any strictness flag, any dialect and any scanner,
  \<^verbatim>\<open>parse\<close> returns, without an error, the result of type \<^verbatim>\<open>QUERY\<close> with start 0, end
  \<open>-1\<close>, no statement and no token: the cursor starts at \<open>-1\<close>, which is not below the
  end \<open>-1\<close>, so the loop is never entered.
\<close>

theorem parse_empty_input:
  "parse scanToken [] strict dia =
     Some (Inr \<lparr>type_res = ''QUERY'', start_res = 0, end_res = - 1, body = [], tokens = []\<rparr>)"
  by (simp add: parse_def parse_loop.simps initState_input_def parse_finish_def)

section \<open>The generic dialect: a semicolon ends the statement\<close>

lemma addToken_generic_semicolon:
  assumes "dialect p = ''generic''" "\<not> truthy (endStatement (statement p))"
    "type_tok tok = Semicolon"
  shows "addToken p tok = Inr (p\<lparr>statement := (statement p)\<lparr>endStatement := Some '';''\<rparr>\<rparr>)"
  using assms by (simp add: addToken_def dialectsWithEnds_def)

text \<open>
  Claim C3, as stated, fails on the spec's own example: in strict mode the trigger whose
  body holds a semicolon is cut at that semicolon, and the word \<^verbatim>\<open>END\<close> that follows
  then starts a statement no classifier exists for, so \<^verbatim>\<open>parse\<close> throws instead of
  returning two statements. This holds whether the scanner gives \<^verbatim>\<open>END\<close> the type
  unknown or the type keyword.
\<close>

theorem trigger_generic_strict_raises:
  "map_option (map_sum id body)
     (parse (scan_tokens trigger_tokens) trigger_input True ''generic'')
   = Some (Inl (InvalidStatementParser ''END''))
   \<and> map_option (map_sum id body)
     (parse (scan_tokens (trigger_tokens[27 := tk Keyword ''END'' 59 61]))
        trigger_input True ''generic'')
   = Some (Inl (InvalidStatementParser ''END''))"
  by (simp add: parser_eval trigger_tokens_def trigger_input_def)

text \<open>
  Claim C3, amended. Under the dialect \<^verbatim>\<open>generic\<close> a semicolon token fed to a classifier
  whose statement is not yet terminated sets \<^verbatim>\<open>endStatement\<close> to \<^verbatim>\<open>";"\<close> at once, whatever
  the type of the statement and the other fields; and in non-strict mode the trigger
  example, with \<^verbatim>\<open>END\<close> scanned as a token of type unknown, gives two statements, the
  first one ending at the semicolon inside the body (offset 57).
\<close>

theorem generic_semicolon_ends:
  "(dialect p = ''generic'' \<and> \<not> truthy (endStatement (statement p))
      \<and> type_tok tok = Semicolon \<longrightarrow>
      addToken p tok = Inr (p\<lparr>statement := (statement p)\<lparr>endStatement := Some '';''\<rparr>\<rparr>))
   \<and> map_option (map_sum id body)
       (parse (scan_tokens trigger_tokens) trigger_input False ''generic'')
     = Some (Inr [\<lparr>start_stmt = Some 0, end_stmt = Some 57,
                    type_stmt = Some ''CREATE_TRIGGER'', executionType = Some ''MODIFICATION'',
                    endStatement = Some '';'', canEnd = False, definer = Undefined,
                    openBlocks = Undefined\<rparr>,
                  \<lparr>start_stmt = Some 59, end_stmt = Some 62,
                    type_stmt = Some ''UNKNOWN'', executionType = Some ''UNKNOWN'',
                    endStatement = Some '';'', canEnd = False, definer = Undefined,
                    openBlocks = Undefined\<rparr>])"
proof -
  have "map_option (map_sum id body)
       (parse (scan_tokens trigger_tokens) trigger_input False ''generic'')
     = Some (Inr [\<lparr>start_stmt = Some 0, end_stmt = Some 57,
                    type_stmt = Some ''CREATE_TRIGGER'', executionType = Some ''MODIFICATION'',
                    endStatement = Some '';'', canEnd = False, definer = Undefined,
                    openBlocks = Undefined\<rparr>,
                  \<lparr>start_stmt = Some 59, end_stmt = Some 62,
                    type_stmt = Some ''UNKNOWN'', executionType = Some ''UNKNOWN'',
                    endStatement = Some '';'', canEnd = False, definer = Undefined,
                    openBlocks = Undefined\<rparr>])"
    by (simp add: parser_eval trigger_tokens_def trigger_input_def)
  then show ?thesis using addToken_generic_semicolon by blast
qed

text \<open>
  The CREATE classifier of the generic dialect after the first 25 tokens of the trigger
  example (up to \<^verbatim>\<open>b=1\<close>): the statement is a \<^verbatim>\<open>CREATE_TRIGGER\<close>, and the semicolon that
  comes next terminates it.
\<close>

theorem generic_semicolon_ends_witness:
  "(case addTokens (createCreateStatementParser \<lparr>isStrict_opt = True, dialect_opt = ''generic''\<rparr>)
           (take 25 trigger_tokens) of
      Inl e \<Rightarrow> False
    | Inr p \<Rightarrow>
        dialect p = ''generic'' \<and> \<not> truthy (endStatement (statement p))
        \<and> type_stmt (statement p) = Some ''CREATE_TRIGGER''
        \<and> type_tok (trigger_tokens ! 25) = Semicolon
        \<and> addToken p (trigger_tokens ! 25)
            = Inr (p\<lparr>statement := (statement p)\<lparr>endStatement := Some '';''\<rparr>\<rparr>))"
proof -
  obtain p where p: "addTokens (createCreateStatementParser
                        \<lparr>isStrict_opt = True, dialect_opt = ''generic''\<rparr>)
                       (take 25 trigger_tokens) = Inr p"
    and d: "dialect p = ''generic''" and e: "\<not> truthy (endStatement (statement p))"
    and t: "type_stmt (statement p) = Some ''CREATE_TRIGGER''"
    by (simp add: parser_eval trigger_tokens_def)
  have s: "type_tok (trigger_tokens ! 25) = Semicolon"
    by (simp add: trigger_tokens_def tk_def)
  from generic_semicolon_ends [of p "trigger_tokens ! 25"] p d e t s
  show ?thesis by simp
qed

section \<open>The execution type is a function of the type\<close>

lemma execution_type_of_spec: "execution_type_of ty = spec_execution_type ty"
proof (cases ty)
  case None
  then show ?thesis by (simp add: execution_type_of_def spec_execution_type_def)
next
  case (Some k)
  then show ?thesis
    by (simp add: execution_type_of_def spec_execution_type_def EXECUTION_TYPES_def image_iff)
qed

lemma addToken_step_exec_ok:
  "addToken_step p tok = Inr p' \<Longrightarrow> exec_ok (statement p) \<Longrightarrow> exec_ok (statement p')"
  by (auto simp add: addToken_step_def exec_ok_def Let_def split: if_splits)

lemma addToken_definer_exec_ok:
  "addToken_definer p tok = Inr p' \<Longrightarrow> exec_ok (statement p) \<Longrightarrow> exec_ok (statement p')"
  by (auto simp add: addToken_definer_def exec_ok_def Let_def split: if_splits
      dest!: addToken_step_exec_ok [unfolded exec_ok_def])

lemma addToken_skip_exec_ok:
  "addToken_skip p tok = Inr p' \<Longrightarrow> exec_ok (statement p) \<Longrightarrow> exec_ok (statement p')"
  by (auto simp add: addToken_skip_def exec_ok_def split: if_splits
      dest!: addToken_definer_exec_ok [unfolded exec_ok_def])

lemma addToken_end_exec_ok:
  "addToken_end p tok = Inr p' \<Longrightarrow> exec_ok (statement p) \<Longrightarrow> exec_ok (statement p')"
  by (auto simp add: addToken_end_def exec_ok_def Let_def split: if_splits
      dest!: addToken_skip_exec_ok [unfolded exec_ok_def])

lemma addToken_exec_ok:
  "addToken p tok = Inr p' \<Longrightarrow> exec_ok (statement p) \<Longrightarrow> exec_ok (statement p')"
  by (auto simp add: addToken_def exec_ok_def Let_def split: if_splits
      dest!: addToken_end_exec_ok [unfolded exec_ok_def])


lemma addToken_step_fresh:
  "\<not> truthy (type_stmt (statement p)) \<Longrightarrow> addToken_step p tok = Inr p' \<Longrightarrow>
   exec_ok (statement p')"
  by (auto simp add: addToken_step_def exec_ok_def Let_def split: if_splits)

lemma first_token_step:
  assumes "type_stmt (statement p) = None" "endStatement (statement p) = None"
    "definer (statement p) = Undefined" "type_tok tok \<noteq> Semicolon"
    "type_tok tok \<noteq> Whitespace"
    "dialect p = ''generic'' \<or> toUpperCase (value_tok tok) = ''CREATE''"
  shows "addToken p tok = addToken_step p tok"
  using assms
  by (auto simp add: addToken_def addToken_end_def addToken_skip_def addToken_definer_def
      includes_type_def js_gt_def dialectsWithOpenBlocks_def dialectsWithEnds_def
      blockOpeners_def)

lemma created_fresh:
  assumes "createStatementParserByToken tok opts = Inr p"
  shows "type_stmt (statement p) = None \<and> endStatement (statement p) = None
         \<and> definer (statement p) = Undefined \<and> type_tok tok \<noteq> Semicolon
         \<and> type_tok tok \<noteq> Whitespace
         \<and> (dialect p = ''generic'' \<or> toUpperCase (value_tok tok) = ''CREATE'')"
  using assms
  by (auto simp add: createStatementParserByToken_def Let_def createSelectStatementParser_def
      createInsertStatementParser_def createUpdateStatementParser_def
      createDeleteStatementParser_def createTruncateStatementParser_def
      createCreateStatementParser_def createDropStatementParser_def
      createUnknownStatementParser_def stateMachineStatementParser_def empty_statement_def
      split: if_splits)

lemma first_token_exec_ok:
  assumes "createStatementParserByToken tok opts = Inr p" "addToken p tok = Inr p'"
  shows "exec_ok (statement p')"
proof -
  from created_fresh [OF assms(1)] have "addToken p tok = addToken_step p tok"
    and "\<not> truthy (type_stmt (statement p))"
    by (simp_all add: first_token_step)
  with assms(2) show ?thesis by (simp add: addToken_step_fresh)
qed

lemma parse_iter_exec_inv:
  assumes "exec_inv l" "parse_iter scanToken opts l = Inr l1"
  shows "exec_inv l1"
proof -
  obtain tok tokenState where sc: "scanToken (initState_prev (prevState l)) = (tok, tokenState)"
    by (cases "scanToken (initState_prev (prevState l))")
  show ?thesis
  proof (cases "statementParser l")
    case None
    show ?thesis
    proof (cases "type_tok tok \<in> set ignoreOutsideBlankTokens")
      case True
      with None sc assms show ?thesis
        by (auto simp add: parse_iter_def exec_inv_def Let_def)
    next
      case False
      with None sc assms(2) obtain sp sp' where
        c: "createStatementParserByToken tok opts = Inr sp" and a: "addToken sp tok = Inr sp'"
        by (auto simp add: parse_iter_def Let_def split: sum.splits)
      from first_token_exec_ok [OF c a] have "exec_ok (statement sp')" .
      with None False sc c a assms show ?thesis
        by (auto simp add: parse_iter_def exec_inv_def exec_ok_def Let_def split: if_splits)
    qed
  next
    case (Some sp)
    with sc assms(2) obtain sp' where a: "addToken sp tok = Inr sp'"
      by (auto simp add: parse_iter_def Let_def split: sum.splits)
    from Some assms(1) have "exec_ok (statement sp)" by (simp add: exec_inv_def)
    from addToken_exec_ok [OF a this] have "exec_ok (statement sp')" .
    with Some sc a assms show ?thesis
      by (auto simp add: parse_iter_def exec_inv_def exec_ok_def Let_def split: if_splits)
  qed
qed

text \<open>
  Claim C4. Every statement in the body of a result of \<^verbatim>\<open>parse\<close> has the execution type
  the fixed table gives for its type: \<^verbatim>\<open>LISTING\<close> for \<^verbatim>\<open>SELECT\<close>, \<^verbatim>\<open>MODIFICATION\<close> for the
  ten modifying types, \<^verbatim>\<open>UNKNOWN\<close> for any other type and for a type left unset. It holds
  for every scanner, input, strictness flag and dialect.
\<close>

theorem executionType_is_table_of_type:
  assumes "parse scanToken inp strict dia = Some (Inr r)"
  shows "\<forall>s\<in>set (body r). executionType s = Some (spec_execution_type (type_stmt s))"
proof -
  let ?opts = "\<lparr>isStrict_opt = strict, dialect_opt = dia\<rparr>"
  let ?l0 = "\<lparr>prevState = initState_input inp, statementParser = None,
              topLevelStatement = \<lparr>type_res = ''QUERY'', start_res = 0,
                end_res = int (length inp) - 1, body = [], tokens = []\<rparr>\<rparr>"
  from assms obtain l where
    run: "parse_loop scanToken ?opts (end_st (initState_input inp)) ?l0 = Some (Inr l)"
    and r: "r = parse_finish l"
    by (auto simp add: parse_def Let_def split: option.splits sum.splits)
  have "exec_inv ?l0" by (simp add: exec_inv_def)
  from parse_loop_invariant [OF run, of exec_inv, OF this] parse_iter_exec_inv
  have "exec_inv l" by auto
  then have "\<forall>s\<in>set (body r). exec_ok s"
    unfolding r by (auto simp add: parse_finish_def exec_inv_def exec_ok_def Let_def
        split: option.splits)
  then show ?thesis by (simp add: exec_ok_def execution_type_of_spec)
qed

text \<open>
  The input \<^verbatim>\<open>SELECT 1; DELETE FROM t\<close>: two statements, a listing and a modification.
\<close>

theorem executionType_is_table_of_type_witness:
  "(case parse (scan_tokens select_delete_tokens) select_delete_input True ''generic'' of
      Some (Inr r) \<Rightarrow>
        map (\<lambda>s. (type_stmt s, executionType s)) (body r)
          = [(Some ''SELECT'', Some ''LISTING''), (Some ''DELETE'', Some ''MODIFICATION'')]
        \<and> (\<forall>s\<in>set (body r). executionType s = Some (spec_execution_type (type_stmt s)))
    | _ \<Rightarrow> False)"
proof -
  obtain r where
    r: "parse (scan_tokens select_delete_tokens) select_delete_input True ''generic''
          = Some (Inr r)"
    and b: "map (\<lambda>s. (type_stmt s, executionType s)) (body r)
          = [(Some ''SELECT'', Some ''LISTING''), (Some ''DELETE'', Some ''MODIFICATION'')]"
    by (simp add: parser_eval select_delete_tokens_def select_delete_input_def)
  from executionType_is_table_of_type [OF r] r b show ?thesis by simp
qed

section \<open>The first token of a statement selects the classifier\<close>

lemma unknown_first_token:
  assumes "type_tok tok = Unknown"
  shows "addToken (createUnknownStatementParser False) tok =
           Inr \<lparr>statement = empty_statement\<lparr>type_stmt := Some ''UNKNOWN'',
                   start_stmt := Some (start_tok tok), executionType := Some ''UNKNOWN''\<rparr>,
                steps = unknown_steps, currentStepIndex = 1, prevToken = Some tok,
                isStrict = False, dialect = ''generic''\<rparr>"
  using assms
  by (simp add: addToken_def addToken_end_def addToken_skip_def addToken_definer_def
      addToken_step_def createUnknownStatementParser_def stateMachineStatementParser_def
      dialectsWithOpenBlocks_def dialectsWithEnds_def empty_statement_def includes_type_def
      js_gt_def unknown_steps_def hasRequiredBefore_def isValidToken_def
      execution_type_of_def EXECUTION_TYPES_def Let_def)

text \<open>
  A classifier of the generic dialect whose statement has its type, no definer clause
  open and no end yet takes every token that is not a semicolon, and keeps the type and
  the execution type.
\<close>

lemma addToken_inert:
  assumes "truthy (type_stmt (statement p))" "\<not> truthy (endStatement (statement p))"
    "dialect p = ''generic''" "definer (statement p) = Undefined"
    "type_tok tok \<noteq> Semicolon"
  shows "\<exists>p'. addToken p tok = Inr p' \<and> type_stmt (statement p') = type_stmt (statement p)
           \<and> executionType (statement p') = executionType (statement p)
           \<and> endStatement (statement p') = endStatement (statement p)
           \<and> dialect p' = dialect p \<and> definer (statement p') = Undefined"
  using assms
  by (simp add: addToken_def addToken_end_def addToken_skip_def addToken_definer_def
      addToken_step_def dialectsWithOpenBlocks_def dialectsWithEnds_def js_gt_def Let_def)

lemma addTokens_inert:
  assumes "truthy (type_stmt (statement p))" "\<not> truthy (endStatement (statement p))"
    "dialect p = ''generic''" "definer (statement p) = Undefined"
    "\<forall>t\<in>set ts. type_tok t \<noteq> Semicolon"
  shows "\<exists>p'. addTokens p ts = Inr p' \<and> type_stmt (statement p') = type_stmt (statement p)
           \<and> executionType (statement p') = executionType (statement p)"
  using assms
proof (induction ts arbitrary: p)
  case Nil
  then show ?case by simp
next
  case (Cons t ts)
  from addToken_inert [OF Cons.prems(1-4), of t] Cons.prems(5)
  obtain q where q: "addToken p t = Inr q"
    "type_stmt (statement q) = type_stmt (statement p)"
    "executionType (statement q) = executionType (statement p)"
    "endStatement (statement q) = endStatement (statement p)"
    "dialect q = dialect p" "definer (statement q) = Undefined"
    by auto
  with Cons.prems
  have "\<exists>p'. addTokens q ts = Inr p' \<and> type_stmt (statement p') = type_stmt (statement q)
           \<and> executionType (statement p') = executionType (statement q)"
    by (intro Cons.IH) auto
  with q show ?case by auto
qed

lemma parse_loop_first_token_error:
  assumes "statementParser l = None" "position (prevState l) < e"
    "scanToken (initState_prev (prevState l)) = (tok, st')"
    "type_tok tok \<notin> set ignoreOutsideBlankTokens"
    "createStatementParserByToken tok opts = Inl err"
  shows "parse_loop scanToken opts e l = Some (Inl err)"
  using assms by (subst parse_loop.simps) (simp add: parse_iter_def)

text \<open>
  Claim C5, as stated, fails where the first token of a statement is neither one of the
  seven keywords nor of type unknown: in non-strict mode such a token (here a
  semicolon, the whole input being \<^verbatim>\<open>;\<close>) raises the same error as in strict mode, and
  no unknown classifier is selected.
\<close>

theorem nonstrict_semicolon_first_raises:
  "createStatementParserByToken semicolon_token
       \<lparr>isStrict_opt = False, dialect_opt = ''generic''\<rparr>
     = Inl (InvalidStatementParser '';'')
   \<and> parse (scan_tokens [semicolon_token]) '';'' False ''generic''
     = Some (Inl (InvalidStatementParser '';''))"
  by (simp add: parser_eval semicolon_token_def)

text \<open>
  Claim C5, amended. A first token that is a keyword and one of \<^verbatim>\<open>SELECT\<close>, \<^verbatim>\<open>INSERT\<close>,
  \<^verbatim>\<open>UPDATE\<close>, \<^verbatim>\<open>DELETE\<close>, \<^verbatim>\<open>CREATE\<close>, \<^verbatim>\<open>DROP\<close>, \<^verbatim>\<open>TRUNCATE\<close> (compared in upper case)
  selects the classifier of that word. Any other token raises an error when strict is
  true, and also when strict is false and the type of the token is not unknown; the
  error ends the loop of \<^verbatim>\<open>parse\<close>. When strict is false and the token has type unknown,
  the unknown classifier is selected: fed that token and then any tokens but a semicolon,
  it accepts them all and its statement has type \<^verbatim>\<open>UNKNOWN\<close> and execution type
  \<^verbatim>\<open>UNKNOWN\<close>.
\<close>

theorem createStatementParserByToken_cases:
  "(type_tok tok = Keyword \<longrightarrow>
       (toUpperCase (value_tok tok) = ''SELECT'' \<longrightarrow>
          createStatementParserByToken tok opts = Inr (createSelectStatementParser opts))
     \<and> (toUpperCase (value_tok tok) = ''INSERT'' \<longrightarrow>
          createStatementParserByToken tok opts = Inr (createInsertStatementParser opts))
     \<and> (toUpperCase (value_tok tok) = ''UPDATE'' \<longrightarrow>
          createStatementParserByToken tok opts = Inr (createUpdateStatementParser opts))
     \<and> (toUpperCase (value_tok tok) = ''DELETE'' \<longrightarrow>
          createStatementParserByToken tok opts = Inr (createDeleteStatementParser opts))
     \<and> (toUpperCase (value_tok tok) = ''CREATE'' \<longrightarrow>
          createStatementParserByToken tok opts = Inr (createCreateStatementParser opts))
     \<and> (toUpperCase (value_tok tok) = ''DROP'' \<longrightarrow>
          createStatementParserByToken tok opts = Inr (createDropStatementParser opts))
     \<and> (toUpperCase (value_tok tok) = ''TRUNCATE'' \<longrightarrow>
          createStatementParserByToken tok opts = Inr (createTruncateStatementParser opts)))
    \<and> (\<not> (type_tok tok = Keyword \<and> toUpperCase (value_tok tok) \<in> set leading_keywords) \<longrightarrow>
         (isStrict_opt opts \<or> type_tok tok \<noteq> Unknown \<longrightarrow>
            createStatementParserByToken tok opts = Inl (InvalidStatementParser (value_tok tok))
            \<and> (\<forall>scanToken l e st'.
                  statementParser l = None \<and> position (prevState l) < e
                  \<and> scanToken (initState_prev (prevState l)) = (tok, st')
                  \<and> type_tok tok \<notin> set ignoreOutsideBlankTokens \<longrightarrow>
                  parse_loop scanToken opts e l
                    = Some (Inl (InvalidStatementParser (value_tok tok)))))
       \<and> (\<not> isStrict_opt opts \<and> type_tok tok = Unknown \<longrightarrow>
            createStatementParserByToken tok opts = Inr (createUnknownStatementParser False)
            \<and> (\<forall>ts. (\<forall>t\<in>set ts. type_tok t \<noteq> Semicolon) \<longrightarrow>
                 (\<exists>p. addTokens (createUnknownStatementParser False) (tok # ts) = Inr p
                      \<and> type_stmt (statement p) = Some ''UNKNOWN''
                      \<and> executionType (statement p) = Some ''UNKNOWN''))))"
proof -
  have k: "type_tok tok = Keyword \<longrightarrow>
       (toUpperCase (value_tok tok) = ''SELECT'' \<longrightarrow>
          createStatementParserByToken tok opts = Inr (createSelectStatementParser opts))
     \<and> (toUpperCase (value_tok tok) = ''INSERT'' \<longrightarrow>
          createStatementParserByToken tok opts = Inr (createInsertStatementParser opts))
     \<and> (toUpperCase (value_tok tok) = ''UPDATE'' \<longrightarrow>
          createStatementParserByToken tok opts = Inr (createUpdateStatementParser opts))
     \<and> (toUpperCase (value_tok tok) = ''DELETE'' \<longrightarrow>
          createStatementParserByToken tok opts = Inr (createDeleteStatementParser opts))
     \<and> (toUpperCase (value_tok tok) = ''CREATE'' \<longrightarrow>
          createStatementParserByToken tok opts = Inr (createCreateStatementParser opts))
     \<and> (toUpperCase (value_tok tok) = ''DROP'' \<longrightarrow>
          createStatementParserByToken tok opts = Inr (createDropStatementParser opts))
     \<and> (toUpperCase (value_tok tok) = ''TRUNCATE'' \<longrightarrow>
          createStatementParserByToken tok opts = Inr (createTruncateStatementParser opts))"
    by (simp add: createStatementParserByToken_def)
  have e: "createStatementParserByToken tok opts = Inl (InvalidStatementParser (value_tok tok))"
    if "\<not> (type_tok tok = Keyword \<and> toUpperCase (value_tok tok) \<in> set leading_keywords)"
      "isStrict_opt opts \<or> type_tok tok \<noteq> Unknown"
    using that by (auto simp add: createStatementParserByToken_def leading_keywords_def)
  have u: "createStatementParserByToken tok opts = Inr (createUnknownStatementParser False)"
    if "\<not> isStrict_opt opts" "type_tok tok = Unknown"
    using that by (simp add: createStatementParserByToken_def)
  have a: "\<exists>p. addTokens (createUnknownStatementParser False) (tok # ts) = Inr p
                      \<and> type_stmt (statement p) = Some ''UNKNOWN''
                      \<and> executionType (statement p) = Some ''UNKNOWN''"
    if "type_tok tok = Unknown" "\<forall>t\<in>set ts. type_tok t \<noteq> Semicolon" for ts
  proof -
    let ?q = "\<lparr>statement = empty_statement\<lparr>type_stmt := Some ''UNKNOWN'',
                   start_stmt := Some (start_tok tok), executionType := Some ''UNKNOWN''\<rparr>,
                steps = unknown_steps, currentStepIndex = 1, prevToken = Some tok,
                isStrict = False, dialect = ''generic''\<rparr>"
    have "\<exists>p'. addTokens ?q ts = Inr p' \<and> type_stmt (statement p') = type_stmt (statement ?q)
           \<and> executionType (statement p') = executionType (statement ?q)"
      using that(2) by (intro addTokens_inert) (simp_all add: empty_statement_def)
    then show ?thesis using unknown_first_token [OF that(1)] by simp
  qed
  from k e u a parse_loop_first_token_error [where tok = tok and opts = opts]
  show ?thesis by (intro conjI impI allI) (blast+)
qed

text \<open>
  The first tokens of \<^verbatim>\<open>GRANT ALL;\<close> and of \<^verbatim>\<open>select 1\<close>: the word \<^verbatim>\<open>GRANT\<close> is refused in
  strict mode and selects the unknown classifier otherwise, which classifies
  \<^verbatim>\<open>GRANT ALL\<close> as \<^verbatim>\<open>UNKNOWN\<close>; the keyword \<^verbatim>\<open>select\<close> selects the SELECT classifier.
\<close>

theorem createStatementParserByToken_cases_witness:
  "createStatementParserByToken (tk Unknown ''GRANT'' 0 4)
       \<lparr>isStrict_opt = True, dialect_opt = ''generic''\<rparr>
     = Inl (InvalidStatementParser ''GRANT'')
   \<and> createStatementParserByToken (tk Unknown ''GRANT'' 0 4)
       \<lparr>isStrict_opt = False, dialect_opt = ''generic''\<rparr>
     = Inr (createUnknownStatementParser False)
   \<and> (case addTokens (createUnknownStatementParser False) (take 3 grant_tokens) of
        Inl e \<Rightarrow> False
      | Inr p \<Rightarrow> type_stmt (statement p) = Some ''UNKNOWN''
                 \<and> executionType (statement p) = Some ''UNKNOWN'')
   \<and> createStatementParserByToken (tk Keyword ''select'' 0 5)
       \<lparr>isStrict_opt = True, dialect_opt = ''generic''\<rparr>
     = Inr (createSelectStatementParser \<lparr>isStrict_opt = True, dialect_opt = ''generic''\<rparr>)"
proof -
  let ?g = "tk Unknown ''GRANT'' 0 4"
  let ?s = "tk Keyword ''select'' 0 5"
  let ?strict = "\<lparr>isStrict_opt = True, dialect_opt = ''generic''\<rparr>"
  let ?loose = "\<lparr>isStrict_opt = False, dialect_opt = ''generic''\<rparr>"
  have up: "toUpperCase (value_tok ?g) \<notin> set leading_keywords"
    "toUpperCase (value_tok ?s) = ''SELECT''"
    by (simp_all add: tk_def toUpperCase_def upper_char_def char_of_eq_iff
        leading_keywords_def)
  have ty: "type_tok ?g = Unknown" "type_tok ?s = Keyword"
    by (simp_all add: tk_def)
  have g: "take 3 grant_tokens = ?g # [tk Whitespace '' '' 5 5, tk Unknown ''ALL'' 6 8]"
    by (simp add: grant_tokens_def)
  have ns: "\<forall>t\<in>set [tk Whitespace '' '' 5 5, tk Unknown ''ALL'' 6 8]. type_tok t \<noteq> Semicolon"
    by (simp add: tk_def)
  from createStatementParserByToken_cases [of ?g ?strict] up(1) ty(1)
  have 1: "createStatementParserByToken ?g ?strict = Inl (InvalidStatementParser ''GRANT'')"
    by (simp add: tk_def)
  from createStatementParserByToken_cases [of ?g ?loose] up(1) ty(1)
  have 2: "createStatementParserByToken ?g ?loose = Inr (createUnknownStatementParser False)"
    and a: "\<forall>ts. (\<forall>t\<in>set ts. type_tok t \<noteq> Semicolon) \<longrightarrow>
       (\<exists>p. addTokens (createUnknownStatementParser False) (?g # ts) = Inr p
            \<and> type_stmt (statement p) = Some ''UNKNOWN''
            \<and> executionType (statement p) = Some ''UNKNOWN'')"
    by simp_all
  from a ns have 3: "\<exists>p. addTokens (createUnknownStatementParser False) (take 3 grant_tokens) = Inr p
            \<and> type_stmt (statement p) = Some ''UNKNOWN''
            \<and> executionType (statement p) = Some ''UNKNOWN''"
    unfolding g by blast
  from createStatementParserByToken_cases [of ?s ?strict] up(2) ty(2)
  have 4: "createStatementParserByToken ?s ?strict = Inr (createSelectStatementParser ?strict)"
    by simp
  from 1 2 3 4 show ?thesis by auto
qed

section \<open>The statements of a result are in order and do not overlap\<close>

lemma ordered_from_append:
  "ordered_from lo (xs @ ys) =
     (case ordered_from lo xs of None \<Rightarrow> None | Some m \<Rightarrow> ordered_from m ys)"
  by (induction xs arbitrary: lo) (auto split: option.splits)

lemma ordered_from_bounds:
  "ordered_from lo ss = Some m \<Longrightarrow>
     lo \<le> m \<and> (\<forall>s\<in>set ss. case (start_stmt s, end_stmt s) of
                    (Some a, Some b) \<Rightarrow> lo < a \<and> a \<le> b \<and> b \<le> m | _ \<Rightarrow> False)"
proof (induction ss arbitrary: lo)
  case Nil
  then show ?case by simp
next
  case (Cons s ss)
  from Cons.prems obtain a b where ab: "start_stmt s = Some a" "end_stmt s = Some b"
    "lo < a" "a \<le> b" "ordered_from b ss = Some m"
    by (auto split: option.splits if_splits)
  from Cons.IH [OF ab(5)] ab show ?case
    by (fastforce split: option.splits)
qed

lemma ordered_from_sorted:
  "ordered_from lo ss = Some m \<Longrightarrow>
     sorted_wrt (\<lambda>s t. start_le s t \<and> ranges_disjoint s t) ss"
proof (induction ss arbitrary: lo)
  case Nil
  then show ?case by simp
next
  case (Cons s ss)
  from Cons.prems obtain a b where ab: "start_stmt s = Some a" "end_stmt s = Some b"
    "lo < a" "a \<le> b" "ordered_from b ss = Some m"
    by (auto split: option.splits if_splits)
  from ordered_from_bounds [OF ab(5)] ab
  have "\<forall>t\<in>set ss. start_le s t \<and> ranges_disjoint s t"
    by (fastforce simp add: start_le_def ranges_disjoint_def split: option.splits)
  with Cons.IH [OF ab(5)] show ?case by simp
qed

lemma addToken_step_keeps_start:
  assumes "keeps_start p" "addToken_step p tok = Inr p'"
  shows "keeps_start p' \<and> start_stmt (statement p') = start_stmt (statement p)"
proof (cases "truthy (type_stmt (statement p))")
  case True
  with assms show ?thesis by (simp add: addToken_step_def)
next
  case False
  with assms(1) have s: "steps p = create_steps \<or> steps p = drop_steps"
    and i: "currentStepIndex p = 1"
    by (auto simp add: keeps_start_def)
  from s assms(2) False i show ?thesis
    by (auto simp add: addToken_step_def keeps_start_def create_steps_def drop_steps_def
        Let_def split: if_splits)
qed

lemma addToken_definer_keeps_start:
  assumes "keeps_start p" "addToken_definer p tok = Inr p'"
  shows "keeps_start p' \<and> start_stmt (statement p') = start_stmt (statement p)"
proof -
  have k: "keeps_start (p\<lparr>statement := (statement p)\<lparr>definer := JBool False\<rparr>\<rparr>)"
    using assms(1) by (simp add: keeps_start_def)
  from assms addToken_step_keeps_start [OF assms(1), of tok p']
    addToken_step_keeps_start [OF k, of tok p']
  show ?thesis
    by (auto simp add: addToken_definer_def keeps_start_def Let_def split: if_splits)
qed

lemma addToken_skip_keeps_start:
  assumes "keeps_start p" "addToken_skip p tok = Inr p'"
  shows "keeps_start p' \<and> start_stmt (statement p') = start_stmt (statement p)"
  using assms addToken_definer_keeps_start [OF assms(1), of tok p']
  by (auto simp add: addToken_skip_def keeps_start_def split: if_splits)

lemma addToken_end_keeps_start:
  assumes "keeps_start p" "addToken_end p tok = Inr p'"
  shows "keeps_start p' \<and> start_stmt (statement p') = start_stmt (statement p)"
proof -
  have k: "keeps_start (p\<lparr>statement :=
                    (statement p)\<lparr>openBlocks := js_decr (openBlocks (statement p))\<rparr>\<rparr>)"
    using assms(1) by (simp add: keeps_start_def)
  from assms addToken_skip_keeps_start [OF assms(1), of tok p']
    addToken_skip_keeps_start [OF k, of tok p']
  show ?thesis
    by (auto simp add: addToken_end_def keeps_start_def Let_def split: if_splits)
qed

lemma addToken_keeps_start:
  assumes "keeps_start p" "addToken p tok = Inr p'"
  shows "keeps_start p' \<and> start_stmt (statement p') = start_stmt (statement p)"
  using assms addToken_end_keeps_start [OF assms(1), of tok p']
  by (auto simp add: addToken_def keeps_start_def Let_def split: if_splits)



lemma created_cases:
  assumes "createStatementParserByToken tok opts = Inr p"
  obtains (keyword) kw where "type_tok tok = Keyword" "toUpperCase (value_tok tok) = kw"
      "kw \<noteq> []"
      "p = stateMachineStatementParser empty_statement [keyword_step kw]
             (isStrict_opt opts) ''generic''"
  | (create) "type_tok tok = Keyword" "toUpperCase (value_tok tok) = ''CREATE''"
      "p = createCreateStatementParser opts"
  | (drop) "type_tok tok = Keyword" "toUpperCase (value_tok tok) = ''DROP''"
      "p = createDropStatementParser opts"
  | (unknown) "type_tok tok = Unknown" "p = createUnknownStatementParser False"
  using assms
  by (auto simp add: createStatementParserByToken_def Let_def createSelectStatementParser_def
      createInsertStatementParser_def createUpdateStatementParser_def
      createDeleteStatementParser_def createTruncateStatementParser_def
      split: if_splits)

lemma step_keyword_first:
  assumes "type_tok tok = Keyword" "toUpperCase (value_tok tok) = kw" "kw \<noteq> []"
    "addToken_step (stateMachineStatementParser empty_statement [keyword_step kw]
       strict ''generic'') tok = Inr p'"
  shows "start_stmt (statement p') = Some (start_tok tok) \<and> keeps_start p'
         \<and> \<not> truthy (endStatement (statement p'))"
  using assms
  by (auto simp add: addToken_step_def stateMachineStatementParser_def keyword_step_def
      empty_statement_def dialectsWithOpenBlocks_def keeps_start_def Let_def
      split: if_splits)

lemma step_create_first:
  assumes "addToken_step (createCreateStatementParser opts) tok = Inr p'"
  shows "start_stmt (statement p') = Some (start_tok tok) \<and> keeps_start p'
         \<and> \<not> truthy (endStatement (statement p'))"
  using assms
  by (auto simp add: addToken_step_def createCreateStatementParser_def
      stateMachineStatementParser_def empty_statement_def keeps_start_def Let_def
      create_steps_def [symmetric] split: if_splits)
    (auto simp add: create_steps_def)


lemma step_drop_first:
  assumes "addToken_step (createDropStatementParser opts) tok = Inr p'"
  shows "start_stmt (statement p') = Some (start_tok tok) \<and> keeps_start p'
         \<and> \<not> truthy (endStatement (statement p'))"
  using assms
  by (auto simp add: addToken_step_def createDropStatementParser_def
      stateMachineStatementParser_def empty_statement_def keeps_start_def Let_def
      dialectsWithOpenBlocks_def drop_steps_def [symmetric] split: if_splits)
    (auto simp add: drop_steps_def)

lemma step_unknown_first:
  assumes "addToken_step (createUnknownStatementParser strict) tok = Inr p'"
  shows "start_stmt (statement p') = Some (start_tok tok) \<and> keeps_start p'
         \<and> \<not> truthy (endStatement (statement p'))"
  using assms
  by (auto simp add: addToken_step_def createUnknownStatementParser_def
      stateMachineStatementParser_def empty_statement_def keeps_start_def Let_def
      dialectsWithOpenBlocks_def unknown_steps_def split: if_splits)

lemma first_token_start:
  assumes "createStatementParserByToken tok opts = Inr p" "addToken p tok = Inr p'"
  shows "start_stmt (statement p') = Some (start_tok tok) \<and> keeps_start p'
         \<and> \<not> truthy (endStatement (statement p'))"
proof -
  from created_fresh [OF assms(1)] have "addToken p tok = addToken_step p tok"
    by (simp add: first_token_step)
  with assms(2) have s: "addToken_step p tok = Inr p'" by simp
  from assms(1) show ?thesis
  proof (cases rule: created_cases)
    case (keyword kw)
    with s step_keyword_first show ?thesis by blast
  next
    case create
    with s step_create_first show ?thesis by blast
  next
    case drop
    with s step_drop_first show ?thesis by blast
  next
    case unknown
    with s step_unknown_first show ?thesis by blast
  qed
qed

lemma scanner_ok_step:
  assumes ok: "scanner_ok scanToken" and inv: "order_inv inp l"
    and lt: "position (prevState l) < int (length inp) - 1"
    and sc: "scanToken (initState_prev (prevState l)) = (tok, st')"
  shows "start_tok tok = position (prevState l) + 1 \<and> start_tok tok \<le> end_tok tok
         \<and> position st' = end_tok tok \<and> input_st st' = inp"
proof -
  let ?st = "initState_prev (prevState l)"
  from inv have i: "input_st (prevState l) = inp" "- 1 \<le> position (prevState l)"
    by (simp_all add: order_inv_def Let_def)
  with lt have "0 \<le> start_st ?st \<and> start_st ?st = position ?st + 1
                \<and> start_st ?st < int (length (input_st ?st))"
    by (simp add: initState_prev_def)
  with ok sc have "start_tok tok = start_st ?st \<and> start_tok tok \<le> end_tok tok
             \<and> position st' = end_tok tok \<and> input_st st' = input_st ?st"
    unfolding scanner_ok_def by (metis (mono_tags, lifting) case_prod_conv)
  with i show ?thesis by (simp add: initState_prev_def)
qed

lemma parse_iter_order_inv:
  assumes ok: "scanner_ok scanToken" and inv: "order_inv inp l"
    and lt: "position (prevState l) < int (length inp) - 1"
    and it: "parse_iter scanToken opts l = Inr l1"
  shows "order_inv inp l1"
proof -
  obtain tok st' where sc: "scanToken (initState_prev (prevState l)) = (tok, st')"
    by (cases "scanToken (initState_prev (prevState l))")
  from scanner_ok_step [OF ok inv lt sc]
  have t: "start_tok tok = position (prevState l) + 1" "start_tok tok \<le> end_tok tok"
    "position st' = end_tok tok" "input_st st' = inp"
    by simp_all
  from inv obtain m where m: "ordered_from (- 1) (body (topLevelStatement l)) = Some m"
    "m \<le> position (prevState l)" "end_res (topLevelStatement l) = int (length inp) - 1"
    "- 1 \<le> position (prevState l)"
    by (auto simp add: order_inv_def Let_def split: option.splits)
  show ?thesis
  proof (cases "statementParser l")
    case None
    show ?thesis
    proof (cases "type_tok tok \<in> set ignoreOutsideBlankTokens")
      case True
      with None sc it have "l1 = l\<lparr>prevState := st',
          topLevelStatement := (topLevelStatement l)\<lparr>tokens := tokens (topLevelStatement l) @ [tok]\<rparr>\<rparr>"
        by (simp add: parse_iter_def Let_def)
      with None t m show ?thesis by (simp add: order_inv_def Let_def)
    next
      case False
      with None sc it obtain sp sp' where
        c: "createStatementParserByToken tok opts = Inr sp" and a: "addToken sp tok = Inr sp'"
        by (auto simp add: parse_iter_def Let_def split: sum.splits)
      from first_token_start [OF c a]
      have f: "start_stmt (statement sp') = Some (start_tok tok)" "keeps_start sp'"
        "\<not> truthy (endStatement (statement sp'))" by simp_all
      with None False sc it c a have "l1 = \<lparr>prevState = st', statementParser = Some sp',
          topLevelStatement = (topLevelStatement l)\<lparr>tokens := tokens (topLevelStatement l) @ [tok]\<rparr>\<rparr>"
        by (simp add: parse_iter_def Let_def)
      with f t m lt show ?thesis by (simp add: order_inv_def Let_def)
    qed
  next
    case (Some sp)
    with sc it obtain sp' where a: "addToken sp tok = Inr sp'"
      by (auto simp add: parse_iter_def Let_def split: sum.splits)
    from Some inv m obtain b where sp: "\<not> truthy (endStatement (statement sp))"
      "keeps_start sp" "start_stmt (statement sp) = Some b" "m < b"
      "b \<le> position (prevState l)" "b \<le> int (length inp) - 1"
      by (auto simp add: order_inv_def Let_def split: option.splits)
    from addToken_keeps_start [OF sp(2) a] sp(3)
    have k: "keeps_start sp'" "start_stmt (statement sp') = Some b" by simp_all
    show ?thesis
    proof (cases "truthy (endStatement (statement sp'))")
      case True
      with Some sc it a have "l1 = \<lparr>prevState = st', statementParser = None,
          topLevelStatement = (topLevelStatement l)\<lparr>tokens := tokens (topLevelStatement l) @ [tok],
             body := body (topLevelStatement l) @ [(statement sp')\<lparr>end_stmt := Some (end_tok tok)\<rparr>]\<rparr>\<rparr>"
        by (simp add: parse_iter_def Let_def)
      with k t m sp show ?thesis
        by (simp add: order_inv_def Let_def ordered_from_append)
    next
      case False
      with Some sc it a have "l1 = \<lparr>prevState = st', statementParser = Some sp',
          topLevelStatement = (topLevelStatement l)\<lparr>tokens := tokens (topLevelStatement l) @ [tok]\<rparr>\<rparr>"
        by (simp add: parse_iter_def Let_def)
      with False k t m sp show ?thesis by (simp add: order_inv_def Let_def)
    qed
  qed
qed

text \<open>
  Claim C8. In every result \<^verbatim>\<open>parse\<close> returns, the statements of the body are sorted by
  their start, and no two of them have ranges \<open>[start, end]\<close> that overlap. The scanner
  is assumed to keep its contract (\<open>scanner_ok\<close>): each token starts at the cursor, is not
  empty, and leaves the cursor on its last character.
\<close>

theorem body_sorted_disjoint:
  assumes "scanner_ok scanToken" "parse scanToken inp strict dia = Some (Inr r)"
  shows "sorted_wrt (\<lambda>s t. start_le s t \<and> ranges_disjoint s t) (body r)"
proof -
  let ?opts = "\<lparr>isStrict_opt = strict, dialect_opt = dia\<rparr>"
  let ?l0 = "\<lparr>prevState = initState_input inp, statementParser = None,
              topLevelStatement = \<lparr>type_res = ''QUERY'', start_res = 0,
                end_res = int (length inp) - 1, body = [], tokens = []\<rparr>\<rparr>"
  from assms(2) obtain l where
    run: "parse_loop scanToken ?opts (int (length inp) - 1) ?l0 = Some (Inr l)"
    and r: "r = parse_finish l"
    by (auto simp add: parse_def Let_def initState_input_def split: option.splits sum.splits)
  have "order_inv inp ?l0" by (simp add: order_inv_def initState_input_def)
  from parse_loop_invariant [OF run, of "order_inv inp", OF this]
    parse_iter_order_inv [OF assms(1)]
  have inv: "order_inv inp l" by auto
  then obtain m where m: "ordered_from (- 1) (body (topLevelStatement l)) = Some m"
    "end_res (topLevelStatement l) = int (length inp) - 1"
    by (auto simp add: order_inv_def Let_def split: option.splits)
  have "\<exists>m'. ordered_from (- 1) (body r) = Some m'"
  proof (cases "statementParser l")
    case None
    with m r show ?thesis by (simp add: parse_finish_def)
  next
    case (Some sp)
    with inv m obtain b where "\<not> truthy (endStatement (statement sp))"
      "start_stmt (statement sp) = Some b" "m < b" "b \<le> int (length inp) - 1"
      by (auto simp add: order_inv_def Let_def split: option.splits)
    with Some m r show ?thesis
      by (simp add: parse_finish_def Let_def ordered_from_append)
  qed
  then show ?thesis using ordered_from_sorted by blast
qed


lemma scan_tokens_ok:
  assumes "\<forall>t\<in>set ts. start_tok t \<le> end_tok t"
  shows "scanner_ok (scan_tokens ts)"
proof -
  have h: "start_tok (fst (scan_tokens ts st)) = start_st st
        \<and> start_st st \<le> end_tok (fst (scan_tokens ts st))
        \<and> position (snd (scan_tokens ts st)) = end_tok (fst (scan_tokens ts st))
        \<and> input_st (snd (scan_tokens ts st)) = input_st st" for st
    using assms by (induction ts) auto
  show ?thesis unfolding scanner_ok_def split_beta
  proof (intro allI impI)
    fix st :: state
    assume "0 \<le> start_st st \<and> start_st st = position st + 1
            \<and> start_st st < int (length (input_st st))"
    from h [of st]
    show "start_tok (fst (scan_tokens ts st)) = start_st st
          \<and> start_tok (fst (scan_tokens ts st)) \<le> end_tok (fst (scan_tokens ts st))
          \<and> position (snd (scan_tokens ts st)) = end_tok (fst (scan_tokens ts st))
          \<and> input_st (snd (scan_tokens ts st)) = input_st st"
      by simp
  qed
qed

text \<open>
  The input \<^verbatim>\<open>SELECT 1; DELETE FROM t\<close>: the statements cover the offsets 0 to 8 and 10
  to 22.
\<close>

theorem body_sorted_disjoint_witness:
  "scanner_ok (scan_tokens select_delete_tokens)
   \<and> (case parse (scan_tokens select_delete_tokens) select_delete_input True ''generic'' of
        Some (Inr r) \<Rightarrow>
          map (\<lambda>s. (start_stmt s, end_stmt s)) (body r)
            = [(Some 0, Some 8), (Some 10, Some 22)]
          \<and> sorted_wrt (\<lambda>s t. start_le s t \<and> ranges_disjoint s t) (body r)
      | _ \<Rightarrow> False)"
proof -
  have ok: "scanner_ok (scan_tokens select_delete_tokens)"
    by (rule scan_tokens_ok) (simp add: select_delete_tokens_def tk_def)
  obtain r where
    r: "parse (scan_tokens select_delete_tokens) select_delete_input True ''generic''
          = Some (Inr r)"
    and b: "map (\<lambda>s. (start_stmt s, end_stmt s)) (body r)
          = [(Some 0, Some 8), (Some 10, Some 22)]"
    by (simp add: parser_eval select_delete_tokens_def select_delete_input_def)
  from body_sorted_disjoint [OF ok r] ok r b show ?thesis by simp
qed

section \<open>The CREATE classifier after any tokens\<close>

lemma create_inv_init: "create_inv (dialect_opt opts) (createCreateStatementParser opts)"
  by (simp add: create_inv_def createCreateStatementParser_def stateMachineStatementParser_def
      empty_statement_def)

lemma is_num_incr: "is_num v \<Longrightarrow> is_num (js_incr v)"
  by (cases v) (simp_all add: js_incr_def)

lemma is_num_decr: "is_num v \<Longrightarrow> is_num (js_decr v)"
  by (cases v) (simp_all add: js_decr_def)

lemma addToken_step_create_inv:
  assumes "create_inv dia p" "addToken_step p tok = Inr p'"
  shows "create_inv dia p'"
proof (cases "truthy (type_stmt (statement p))")
  case True
  with assms show ?thesis by (simp add: addToken_step_def)
next
  case False
  from assms(1) have s: "steps p = create_steps" by (simp add: create_inv_def)
  have l: "length create_steps = 2" by (simp add: create_steps_def)
  have a: "definer (add (create_steps ! i) tok s) = definer s
           \<and> openBlocks (add (create_steps ! i) tok s) = openBlocks s" if "i < 2" for i s
    using that by (cases i) (auto simp add: create_steps_def less_Suc_eq)
  from assms False s l a show ?thesis
    by (auto simp add: addToken_step_def create_inv_def Let_def split: if_splits)
qed

lemma addToken_definer_create_inv:
  assumes "create_inv dia p" "addToken_definer p tok = Inr p'"
  shows "create_inv dia p'"
proof (cases "dia = ''mysql''")
  case True
  have k: "create_inv dia (p\<lparr>statement := (statement p)\<lparr>definer := v\<rparr>\<rparr>)" for v
    using assms(1) True by (simp add: create_inv_def)
  from assms addToken_step_create_inv [OF assms(1), of tok p']
    addToken_step_create_inv [OF k, of _ tok p'] True
  show ?thesis
    by (auto simp add: addToken_definer_def create_inv_def Let_def dialectsWithOpenBlocks_def
        split: if_splits)
next
  case False
  with assms(1) have "definer (statement p) = Undefined" "dialect p \<noteq> ''mysql''"
    by (simp_all add: create_inv_def)
  with assms(2) have "addToken_step p tok = Inr p'"
    by (simp add: addToken_definer_def js_gt_def)
  with assms(1) show ?thesis by (rule addToken_step_create_inv)
qed

lemma addToken_skip_create_inv:
  assumes "create_inv dia p" "addToken_skip p tok = Inr p'"
  shows "create_inv dia p'"
  using assms addToken_definer_create_inv [OF assms(1), of tok p']
  by (auto simp add: addToken_skip_def create_inv_def is_num_incr split: if_splits)

lemma addToken_end_create_inv:
  assumes "create_inv dia p" "addToken_end p tok = Inr p'"
  shows "create_inv dia p'"
proof -
  have k: "create_inv dia (p\<lparr>statement :=
                    (statement p)\<lparr>openBlocks := js_decr (openBlocks (statement p))\<rparr>\<rparr>)"
    using assms(1) by (simp add: create_inv_def is_num_decr)
  from assms addToken_skip_create_inv [OF assms(1), of tok p']
    addToken_skip_create_inv [OF k, of tok p']
  show ?thesis
    by (auto simp add: addToken_end_def create_inv_def Let_def is_num_decr split: if_splits)
qed

lemma addToken_create_inv:
  assumes "create_inv dia p" "addToken p tok = Inr p'"
  shows "create_inv dia p'"
  using assms addToken_end_create_inv [OF assms(1), of tok p']
  by (auto simp add: addToken_def create_inv_def Let_def split: if_splits)

lemma addTokens_create_inv:
  assumes "create_inv dia p" "addTokens p ts = Inr p'"
  shows "create_inv dia p'"
  using assms
proof (induction ts arbitrary: p)
  case Nil
  then show ?case by simp
next
  case (Cons t ts)
  from Cons.prems(2) obtain q where q: "addToken p t = Inr q" "addTokens q ts = Inr p'"
    by (auto split: sum.splits)
  from addToken_create_inv [OF Cons.prems(1) q(1)] q(2) show ?case by (rule Cons.IH)
qed

lemma includes_type_truthy:
  "includes_type statementsWithEnds ty \<Longrightarrow> truthy ty"
  by (auto simp add: includes_type_def statementsWithEnds_def split: option.splits)

lemma typed_definer:
  assumes "truthy (type_stmt (statement p))" "definer (statement p) = Undefined"
    "dialect p \<noteq> ''mysql''"
  shows "addToken_definer p tok = Inr p"
  using assms by (simp add: addToken_definer_def addToken_step_def js_gt_def)

text \<open>
  What a token does to a classifier whose statement has its type and no definer clause,
  once the semicolon test is passed: it is accepted; only \<^verbatim>\<open>END\<close> can set \<^verbatim>\<open>canEnd\<close>, only
  \<^verbatim>\<open>END\<close> and a block opener change \<^verbatim>\<open>openBlocks\<close>, and \<^verbatim>\<open>endStatement\<close> is left alone.
\<close>

lemma addToken_end_typed:
  assumes "truthy (type_stmt (statement p))" "definer (statement p) = Undefined"
    "dialect p \<noteq> ''mysql''"
  shows "\<exists>p'. addToken_end p tok = Inr p'
           \<and> endStatement (statement p') = endStatement (statement p)
           \<and> (canEnd (statement p') \<longleftrightarrow>
                canEnd (statement p)
                \<or> (dialect p \<in> set dialectsWithEnds
                    \<and> includes_type statementsWithEnds (type_stmt (statement p))
                    \<and> toUpperCase (value_tok tok) = ''END''
                    \<and> (dialect p \<notin> set dialectsWithOpenBlocks
                        \<or> js_decr (openBlocks (statement p)) = JNum 0)))
           \<and> openBlocks (statement p') =
               (if dialect p \<in> set dialectsWithEnds
                    \<and> includes_type statementsWithEnds (type_stmt (statement p))
                    \<and> toUpperCase (value_tok tok) = ''END''
                then js_decr (openBlocks (statement p))
                else if type_tok tok \<noteq> Whitespace
                    \<and> dialect p \<in> set dialectsWithOpenBlocks
                    \<and> toUpperCase (value_tok tok) \<in> set blockOpeners
                then js_incr (openBlocks (statement p))
                else openBlocks (statement p))"
proof -
  let ?p1 = "p\<lparr>statement := (statement p)\<lparr>openBlocks := js_decr (openBlocks (statement p))\<rparr>\<rparr>"
  have d: "addToken_definer p tok = Inr p" "addToken_definer ?p1 tok = Inr ?p1"
    using assms by (simp_all add: typed_definer)
  show ?thesis
    by (auto simp add: addToken_end_def addToken_skip_def d Let_def blockOpeners_def
        dialectsWithOpenBlocks_def)
qed

section \<open>Semicolons inside a trigger or function body\<close>

lemma is_num_decr_zero: "is_num v \<Longrightarrow> js_decr v = JNum 0 \<longleftrightarrow> v = JNum 1"
  by (cases v) (simp_all add: js_decr_def)

text \<open>
  Claim C1, as stated, fails in the dialect \<^verbatim>\<open>psql\<close>, where the code counts blocks for a
  trigger as it does for a function: in \<^verbatim>\<open>CREATE TRIGGER t BEGIN BEGIN x; END; END;\<close> the
  first \<^verbatim>\<open>END\<close> arrives with two blocks open, at a statement of type \<^verbatim>\<open>CREATE_TRIGGER\<close>
  whose \<^verbatim>\<open>canEnd\<close> is not set; it does not set \<^verbatim>\<open>canEnd\<close>, and the semicolon that follows
  it does not terminate the statement. The same holds for the function
  \<^verbatim>\<open>CREATE FUNCTION f() BEGIN BEGIN x; END; END;\<close>.
\<close>

theorem psql_inner_END_leaves_canEnd_unset:
  "(case addTokens (createCreateStatementParser \<lparr>isStrict_opt = True, dialect_opt = ''psql''\<rparr>)
           (take 13 nested_trigger_tokens) of
      Inl e \<Rightarrow> False
    | Inr p \<Rightarrow>
        type_stmt (statement p) = Some ''CREATE_TRIGGER'' \<and> \<not> canEnd (statement p)
        \<and> value_tok (nested_trigger_tokens ! 13) = ''END''
        \<and> type_tok (nested_trigger_tokens ! 14) = Semicolon
        \<and> (case addTokens p [nested_trigger_tokens ! 13, nested_trigger_tokens ! 14] of
              Inl e \<Rightarrow> False
            | Inr p' \<Rightarrow> \<not> canEnd (statement p') \<and> endStatement (statement p') = None))
   \<and> (case addTokens (createCreateStatementParser \<lparr>isStrict_opt = True, dialect_opt = ''psql''\<rparr>)
           (take 15 nested_tokens) of
      Inl e \<Rightarrow> False
    | Inr p \<Rightarrow>
        type_stmt (statement p) = Some ''CREATE_FUNCTION'' \<and> \<not> canEnd (statement p)
        \<and> value_tok (nested_tokens ! 15) = ''END''
        \<and> type_tok (nested_tokens ! 16) = Semicolon
        \<and> (case addTokens p [nested_tokens ! 15, nested_tokens ! 16] of
              Inl e \<Rightarrow> False
            | Inr p' \<Rightarrow> \<not> canEnd (statement p') \<and> endStatement (statement p') = None))"
  by (simp add: parser_eval nested_trigger_tokens_def nested_tokens_def)

text \<open>
  Claim C1, amended. In the dialects \<^verbatim>\<open>sqlite\<close>, \<^verbatim>\<open>mssql\<close> and \<^verbatim>\<open>psql\<close>, for the CREATE
  classifier after any tokens, while the statement has type \<^verbatim>\<open>CREATE_TRIGGER\<close> or
  \<^verbatim>\<open>CREATE_FUNCTION\<close> and is not terminated: a semicolon is accepted, and it terminates
  the statement when \<^verbatim>\<open>canEnd\<close> is set and leaves it unterminated when \<^verbatim>\<open>canEnd\<close> is
  not set; \<^verbatim>\<open>canEnd\<close> goes from unset to set only on a token whose value is \<^verbatim>\<open>END\<close> in
  upper case; after such a token \<^verbatim>\<open>canEnd\<close> is set exactly when it was set before, or the
  dialect does not count blocks (\<^verbatim>\<open>sqlite\<close>, \<^verbatim>\<open>mssql\<close>), or the token closes the last open
  block (\<^verbatim>\<open>openBlocks\<close> is 1 before it); once set \<^verbatim>\<open>canEnd\<close> stays set, so the next
  semicolon terminates the statement. In \<^verbatim>\<open>psql\<close>, for both types, \<^verbatim>\<open>openBlocks\<close> is a
  number \<open>n\<close>; a word \<^verbatim>\<open>BEGIN\<close>, \<^verbatim>\<open>IF\<close> or \<^verbatim>\<open>LOOP\<close> makes it \<open>n + 1\<close> and changes
  nothing else, and \<^verbatim>\<open>END\<close> makes it \<open>n - 1\<close>.
\<close>

theorem semicolon_suppressed_until_canEnd:
  assumes "dialect_opt opts \<in> set dialectsWithEnds"
    and "addTokens (createCreateStatementParser opts) ts = Inr p"
    and "includes_type statementsWithEnds (type_stmt (statement p))"
    and "\<not> truthy (endStatement (statement p))"
  shows
    "(type_tok tok = Semicolon \<longrightarrow>
        (\<exists>p'. addToken p tok = Inr p'
           \<and> (if canEnd (statement p) then endStatement (statement p') = Some '';''
               else \<not> truthy (endStatement (statement p')))))
     \<and> (\<forall>p'. addToken p tok = Inr p' \<and> \<not> canEnd (statement p) \<and> canEnd (statement p')
           \<longrightarrow> toUpperCase (value_tok tok) = ''END'')
     \<and> (toUpperCase (value_tok tok) = ''END'' \<longrightarrow>
           (\<exists>p'. addToken p tok = Inr p'
              \<and> (canEnd (statement p') \<longleftrightarrow>
                   canEnd (statement p) \<or> dialect_opt opts \<notin> set dialectsWithOpenBlocks
                   \<or> openBlocks (statement p) = JNum 1)))
     \<and> (\<forall>p'. addToken p tok = Inr p' \<and> canEnd (statement p) \<longrightarrow> canEnd (statement p'))
     \<and> (dialect_opt opts \<in> set dialectsWithOpenBlocks \<longrightarrow>
           (\<exists>n. openBlocks (statement p) = JNum n
              \<and> (toUpperCase (value_tok tok) \<in> set blockOpeners
                  \<and> type_tok tok \<noteq> Semicolon \<and> type_tok tok \<noteq> Whitespace \<longrightarrow>
                    addToken p tok
                      = Inr (p\<lparr>statement := (statement p)\<lparr>openBlocks := JNum (n + 1)\<rparr>\<rparr>))
              \<and> (toUpperCase (value_tok tok) = ''END'' \<and> type_tok tok \<noteq> Semicolon \<longrightarrow>
                    (\<exists>p'. addToken p tok = Inr p'
                       \<and> openBlocks (statement p') = JNum (n - 1)))))"
proof -
  from addTokens_create_inv [OF create_inv_init assms(2)]
  have inv: "create_inv (dialect_opt opts) p" .
  from assms(1) have nm: "dialect_opt opts \<noteq> ''mysql''"
    by (auto simp add: dialectsWithEnds_def)
  from inv nm have d: "dialect p = dialect_opt opts" "definer (statement p) = Undefined"
    "dialect p \<noteq> ''mysql''" "dialect p \<in> set dialectsWithEnds"
    using assms(1) by (simp_all add: create_inv_def)
  from inv have num: "dialect p \<in> set dialectsWithOpenBlocks \<longrightarrow>
                        is_num (openBlocks (statement p))"
    by (simp add: create_inv_def)
  from assms(3) have ty: "truthy (type_stmt (statement p))" by (rule includes_type_truthy)
  from addToken_end_typed [OF ty d(2,3), of tok]
  obtain q where q0: "addToken_end p tok = Inr q"
    "endStatement (statement q) = endStatement (statement p)"
    "canEnd (statement q) \<longleftrightarrow>
                canEnd (statement p)
                \<or> (dialect p \<in> set dialectsWithEnds
                    \<and> includes_type statementsWithEnds (type_stmt (statement p))
                    \<and> toUpperCase (value_tok tok) = ''END''
                    \<and> (dialect p \<notin> set dialectsWithOpenBlocks
                        \<or> js_decr (openBlocks (statement p)) = JNum 0))"
    "openBlocks (statement q) =
               (if dialect p \<in> set dialectsWithEnds
                    \<and> includes_type statementsWithEnds (type_stmt (statement p))
                    \<and> toUpperCase (value_tok tok) = ''END''
                then js_decr (openBlocks (statement p))
                else if type_tok tok \<noteq> Whitespace
                    \<and> dialect p \<in> set dialectsWithOpenBlocks
                    \<and> toUpperCase (value_tok tok) \<in> set blockOpeners
                then js_incr (openBlocks (statement p))
                else openBlocks (statement p))"
    by blast
  have q: "addToken_end p tok = Inr q"
    "endStatement (statement q) = endStatement (statement p)"
    "canEnd (statement q) \<longleftrightarrow>
       canEnd (statement p)
       \<or> (toUpperCase (value_tok tok) = ''END''
           \<and> (dialect p \<notin> set dialectsWithOpenBlocks
               \<or> openBlocks (statement p) = JNum 1))"
    "toUpperCase (value_tok tok) = ''END'' \<longrightarrow>
       openBlocks (statement q) = js_decr (openBlocks (statement p))"
    using q0 d(4) assms(3) num by (auto simp add: is_num_decr_zero)
  let ?e = "p\<lparr>statement := (statement p)\<lparr>endStatement := Some '';''\<rparr>\<rparr>"
  have cases: "addToken p tok = Inr ?e \<and> canEnd (statement p) \<and> type_tok tok = Semicolon
               \<or> addToken p tok = Inr q \<and> (type_tok tok = Semicolon \<longrightarrow> \<not> canEnd (statement p))"
    using assms(3,4) d(4) q(1) by (auto simp add: addToken_def Let_def)
  have 1: "type_tok tok = Semicolon \<longrightarrow>
        (\<exists>p'. addToken p tok = Inr p'
           \<and> (if canEnd (statement p) then endStatement (statement p') = Some '';''
               else \<not> truthy (endStatement (statement p'))))"
    using cases q(2) assms(4) by auto
  have 2: "\<forall>p'. addToken p tok = Inr p' \<and> \<not> canEnd (statement p) \<and> canEnd (statement p')
           \<longrightarrow> toUpperCase (value_tok tok) = ''END''"
    using cases q(3) by auto
  have 3: "toUpperCase (value_tok tok) = ''END'' \<longrightarrow>
           (\<exists>p'. addToken p tok = Inr p'
              \<and> (canEnd (statement p') \<longleftrightarrow>
                   canEnd (statement p) \<or> dialect_opt opts \<notin> set dialectsWithOpenBlocks
                   \<or> openBlocks (statement p) = JNum 1))"
    using cases q(3) d(1) by auto
  have 4: "\<forall>p'. addToken p tok = Inr p' \<and> canEnd (statement p) \<longrightarrow> canEnd (statement p')"
    using cases q(3) by auto
  have 5: "\<exists>n. openBlocks (statement p) = JNum n
              \<and> (toUpperCase (value_tok tok) \<in> set blockOpeners
                  \<and> type_tok tok \<noteq> Semicolon \<and> type_tok tok \<noteq> Whitespace \<longrightarrow>
                    addToken p tok
                      = Inr (p\<lparr>statement := (statement p)\<lparr>openBlocks := JNum (n + 1)\<rparr>\<rparr>))
              \<and> (toUpperCase (value_tok tok) = ''END'' \<and> type_tok tok \<noteq> Semicolon \<longrightarrow>
                    (\<exists>p'. addToken p tok = Inr p'
                       \<and> openBlocks (statement p') = JNum (n - 1)))"
    if ob: "dialect_opt opts \<in> set dialectsWithOpenBlocks"
  proof -
    from ob d(1) num obtain n where n: "openBlocks (statement p) = JNum n"
      by (cases "openBlocks (statement p)") simp_all
    have a: "toUpperCase (value_tok tok) \<in> set blockOpeners
           \<and> type_tok tok \<noteq> Semicolon \<and> type_tok tok \<noteq> Whitespace \<longrightarrow>
             addToken p tok
               = Inr (p\<lparr>statement := (statement p)\<lparr>openBlocks := JNum (n + 1)\<rparr>\<rparr>)"
      using assms(4) ob d(1) n typed_definer [OF ty d(2) d(3)]
      by (auto simp add: addToken_def addToken_end_def addToken_skip_def Let_def
          blockOpeners_def dialectsWithOpenBlocks_def js_incr_def)
    have b: "toUpperCase (value_tok tok) = ''END'' \<and> type_tok tok \<noteq> Semicolon \<longrightarrow>
                    (\<exists>p'. addToken p tok = Inr p'
                       \<and> openBlocks (statement p') = JNum (n - 1))"
      using cases q(4) n by (auto simp add: js_decr_def)
    from n a b show ?thesis by blast
  qed
  from 1 2 3 4 5 show ?thesis by blast
qed

text \<open>
  The trigger \<^verbatim>\<open>CREATE TRIGGER t ... BEGIN UPDATE a SET b=1; END;\<close> under \<^verbatim>\<open>sqlite\<close>: the
  semicolon inside the body is suppressed, \<^verbatim>\<open>END\<close> sets \<^verbatim>\<open>canEnd\<close>, and the last semicolon
  terminates the statement. The trigger with a nested block under \<^verbatim>\<open>psql\<close>: the first
  \<^verbatim>\<open>BEGIN\<close> takes \<^verbatim>\<open>openBlocks\<close> from 0 to 1, the inner \<^verbatim>\<open>END\<close> takes it from 2 to 1 and
  leaves \<^verbatim>\<open>canEnd\<close> unset, and the outer \<^verbatim>\<open>END\<close>, which finds it at 1, sets \<^verbatim>\<open>canEnd\<close>.
\<close>

theorem semicolon_suppressed_until_canEnd_witness:
  "(case addTokens (createCreateStatementParser \<lparr>isStrict_opt = True, dialect_opt = ''sqlite''\<rparr>)
           (take 25 trigger_tokens) of
      Inl e \<Rightarrow> False
    | Inr p \<Rightarrow>
        type_stmt (statement p) = Some ''CREATE_TRIGGER'' \<and> \<not> canEnd (statement p)
        \<and> type_tok (trigger_tokens ! 25) = Semicolon
        \<and> (case addToken p (trigger_tokens ! 25) of
              Inl e \<Rightarrow> False | Inr p' \<Rightarrow> \<not> truthy (endStatement (statement p'))))
   \<and> (case addTokens (createCreateStatementParser \<lparr>isStrict_opt = True, dialect_opt = ''sqlite''\<rparr>)
           (take 27 trigger_tokens) of
      Inl e \<Rightarrow> False
    | Inr p \<Rightarrow>
        \<not> canEnd (statement p) \<and> value_tok (trigger_tokens ! 27) = ''END''
        \<and> (case addToken p (trigger_tokens ! 27) of
              Inl e \<Rightarrow> False | Inr p' \<Rightarrow> canEnd (statement p')))
   \<and> (case addTokens (createCreateStatementParser \<lparr>isStrict_opt = True, dialect_opt = ''sqlite''\<rparr>)
           (take 28 trigger_tokens) of
      Inl e \<Rightarrow> False
    | Inr p \<Rightarrow>
        canEnd (statement p) \<and> type_tok (trigger_tokens ! 28) = Semicolon
        \<and> (case addToken p (trigger_tokens ! 28) of
              Inl e \<Rightarrow> False | Inr p' \<Rightarrow> endStatement (statement p') = Some '';''))
   \<and> (case addTokens (createCreateStatementParser \<lparr>isStrict_opt = True, dialect_opt = ''psql''\<rparr>)
           (take 6 nested_trigger_tokens) of
      Inl e \<Rightarrow> False
    | Inr p \<Rightarrow>
        type_stmt (statement p) = Some ''CREATE_TRIGGER'' \<and> openBlocks (statement p) = JNum 0
        \<and> value_tok (nested_trigger_tokens ! 6) = ''BEGIN''
        \<and> addToken p (nested_trigger_tokens ! 6)
            = Inr (p\<lparr>statement := (statement p)\<lparr>openBlocks := JNum 1\<rparr>\<rparr>))
   \<and> (case addTokens (createCreateStatementParser \<lparr>isStrict_opt = True, dialect_opt = ''psql''\<rparr>)
           (take 13 nested_trigger_tokens) of
      Inl e \<Rightarrow> False
    | Inr p \<Rightarrow>
        \<not> canEnd (statement p) \<and> openBlocks (statement p) = JNum 2
        \<and> value_tok (nested_trigger_tokens ! 13) = ''END''
        \<and> (case addToken p (nested_trigger_tokens ! 13) of
              Inl e \<Rightarrow> False
            | Inr p' \<Rightarrow> \<not> canEnd (statement p') \<and> openBlocks (statement p') = JNum 1))
   \<and> (case addTokens (createCreateStatementParser \<lparr>isStrict_opt = True, dialect_opt = ''psql''\<rparr>)
           (take 16 nested_trigger_tokens) of
      Inl e \<Rightarrow> False
    | Inr p \<Rightarrow>
        \<not> canEnd (statement p) \<and> openBlocks (statement p) = JNum 1
        \<and> value_tok (nested_trigger_tokens ! 16) = ''END''
        \<and> (case addToken p (nested_trigger_tokens ! 16) of
              Inl e \<Rightarrow> False | Inr p' \<Rightarrow> canEnd (statement p')))"
proof -
  let ?lite = "\<lparr>isStrict_opt = True, dialect_opt = ''sqlite''\<rparr>"
  let ?psql = "\<lparr>isStrict_opt = True, dialect_opt = ''psql''\<rparr>"
  let ?N = nested_trigger_tokens
  have d: "dialect_opt ?lite \<in> set dialectsWithEnds"
    "dialect_opt ?lite \<notin> set dialectsWithOpenBlocks"
    "dialect_opt ?psql \<in> set dialectsWithEnds"
    "dialect_opt ?psql \<in> set dialectsWithOpenBlocks"
    by (simp_all add: dialectsWithEnds_def dialectsWithOpenBlocks_def)
  have t: "type_tok (trigger_tokens ! 25) = Semicolon"
    "value_tok (trigger_tokens ! 27) = ''END''"
    "toUpperCase (value_tok (trigger_tokens ! 27)) = ''END''"
    "type_tok (trigger_tokens ! 28) = Semicolon"
    by (simp_all add: trigger_tokens_def tk_def toUpperCase_def upper_char_def)
  have n: "value_tok (?N ! 6) = ''BEGIN''"
    "toUpperCase (value_tok (?N ! 6)) \<in> set blockOpeners"
    "type_tok (?N ! 6) \<noteq> Semicolon" "type_tok (?N ! 6) \<noteq> Whitespace"
    "value_tok (?N ! 13) = ''END''" "toUpperCase (value_tok (?N ! 13)) = ''END''"
    "type_tok (?N ! 13) \<noteq> Semicolon"
    "value_tok (?N ! 16) = ''END''" "toUpperCase (value_tok (?N ! 16)) = ''END''"
    by (simp_all add: nested_trigger_tokens_def tk_def toUpperCase_def upper_char_def
        blockOpeners_def)
  have i: "includes_type statementsWithEnds (Some ''CREATE_TRIGGER'')"
    by (simp add: includes_type_def statementsWithEnds_def)
  obtain p25 where p25: "addTokens (createCreateStatementParser ?lite)
                           (take 25 trigger_tokens) = Inr p25"
    and a25: "type_stmt (statement p25) = Some ''CREATE_TRIGGER''"
      "\<not> canEnd (statement p25)" "\<not> truthy (endStatement (statement p25))"
    by (simp add: parser_eval trigger_tokens_def)
  obtain p27 where p27: "addTokens (createCreateStatementParser ?lite)
                           (take 27 trigger_tokens) = Inr p27"
    and a27: "type_stmt (statement p27) = Some ''CREATE_TRIGGER''"
      "\<not> canEnd (statement p27)" "\<not> truthy (endStatement (statement p27))"
    by (simp add: parser_eval trigger_tokens_def)
  obtain p28 where p28: "addTokens (createCreateStatementParser ?lite)
                           (take 28 trigger_tokens) = Inr p28"
    and a28: "type_stmt (statement p28) = Some ''CREATE_TRIGGER''"
      "canEnd (statement p28)" "\<not> truthy (endStatement (statement p28))"
    by (simp add: parser_eval trigger_tokens_def)
  obtain q6 where q6: "addTokens (createCreateStatementParser ?psql) (take 6 ?N) = Inr q6"
    and b6: "type_stmt (statement q6) = Some ''CREATE_TRIGGER''"
      "openBlocks (statement q6) = JNum 0" "\<not> truthy (endStatement (statement q6))"
    by (simp add: parser_eval nested_trigger_tokens_def)
  obtain q13 where q13: "addTokens (createCreateStatementParser ?psql) (take 13 ?N) = Inr q13"
    and b13: "type_stmt (statement q13) = Some ''CREATE_TRIGGER''"
      "openBlocks (statement q13) = JNum 2" "\<not> truthy (endStatement (statement q13))"
      "\<not> canEnd (statement q13)"
    by (simp add: parser_eval nested_trigger_tokens_def)
  obtain q16 where q16: "addTokens (createCreateStatementParser ?psql) (take 16 ?N) = Inr q16"
    and b16: "type_stmt (statement q16) = Some ''CREATE_TRIGGER''"
      "openBlocks (statement q16) = JNum 1" "\<not> truthy (endStatement (statement q16))"
      "\<not> canEnd (statement q16)"
    by (simp add: parser_eval nested_trigger_tokens_def)
  from semicolon_suppressed_until_canEnd [OF d(1) p25 _ a25(3), of "trigger_tokens ! 25"]
    i a25 t(1)
  have 1: "\<exists>p'. addToken p25 (trigger_tokens ! 25) = Inr p'
             \<and> \<not> truthy (endStatement (statement p'))"
    by simp
  from semicolon_suppressed_until_canEnd [OF d(1) p27 _ a27(3), of "trigger_tokens ! 27"]
    i a27 t(3) d(2)
  have 2: "\<exists>p'. addToken p27 (trigger_tokens ! 27) = Inr p' \<and> canEnd (statement p')"
    by simp
  from semicolon_suppressed_until_canEnd [OF d(1) p28 _ a28(3), of "trigger_tokens ! 28"]
    i a28 t(4)
  have 3: "\<exists>p'. addToken p28 (trigger_tokens ! 28) = Inr p'
             \<and> endStatement (statement p') = Some '';''"
    by simp
  have 4: "addToken q6 (?N ! 6)
            = Inr (q6\<lparr>statement := (statement q6)\<lparr>openBlocks := JNum 1\<rparr>\<rparr>)"
  proof -
    from semicolon_suppressed_until_canEnd [OF d(3) q6 _ b6(3), of "?N ! 6"] i b6(1) d(4)
    obtain m where m: "openBlocks (statement q6) = JNum m"
      and o: "toUpperCase (value_tok (?N ! 6)) \<in> set blockOpeners
           \<and> type_tok (?N ! 6) \<noteq> Semicolon \<and> type_tok (?N ! 6) \<noteq> Whitespace \<longrightarrow>
             addToken q6 (?N ! 6)
               = Inr (q6\<lparr>statement := (statement q6)\<lparr>openBlocks := JNum (m + 1)\<rparr>\<rparr>)"
      by auto
    from m b6(2) have "m = 0" by simp
    with o n(2,3,4) show ?thesis by simp
  qed
  have 5: "\<exists>p'. addToken q13 (?N ! 13) = Inr p'
             \<and> \<not> canEnd (statement p') \<and> openBlocks (statement p') = JNum 1"
  proof -
    note th = semicolon_suppressed_until_canEnd [OF d(3) q13 _ b13(3), of "?N ! 13"]
    from th i b13(1) n(6)
    obtain r where r: "addToken q13 (?N ! 13) = Inr r"
      "canEnd (statement r) \<longleftrightarrow>
         canEnd (statement q13) \<or> dialect_opt ?psql \<notin> set dialectsWithOpenBlocks
         \<or> openBlocks (statement q13) = JNum 1"
      by auto
    from th i b13(1) d(4)
    obtain m where m: "openBlocks (statement q13) = JNum m"
      and o: "toUpperCase (value_tok (?N ! 13)) = ''END'' \<and> type_tok (?N ! 13) \<noteq> Semicolon \<longrightarrow>
                (\<exists>p'. addToken q13 (?N ! 13) = Inr p' \<and> openBlocks (statement p') = JNum (m - 1))"
      by auto
    from m b13(2) have "m = 2" by simp
    with o n(6,7) r(1) have "openBlocks (statement r) = JNum 1" by simp
    with r b13(2,4) d(4) show ?thesis by simp
  qed
  have 6: "\<exists>p'. addToken q16 (?N ! 16) = Inr p' \<and> canEnd (statement p')"
  proof -
    from semicolon_suppressed_until_canEnd [OF d(3) q16 _ b16(3), of "?N ! 16"] i b16(1) n(9)
    obtain r where r: "addToken q16 (?N ! 16) = Inr r"
      "canEnd (statement r) \<longleftrightarrow>
         canEnd (statement q16) \<or> dialect_opt ?psql \<notin> set dialectsWithOpenBlocks
         \<or> openBlocks (statement q16) = JNum 1"
      by auto
    with b16(2) show ?thesis by simp
  qed
  from 1 2 3 4 5 6 p25 p27 p28 q6 q13 q16 a25 a27 a28 b6 b13 b16 t n(1,5,8)
  show ?thesis by (auto simp del: nth_Cons_numeral)
qed

section \<open>Block depth of a Postgres function\<close>

text \<open>
  Claim C2. In the dialect \<^verbatim>\<open>psql\<close>, for the CREATE classifier after any tokens, while the
  statement has type \<^verbatim>\<open>CREATE_FUNCTION\<close> and is not terminated: \<^verbatim>\<open>openBlocks\<close> is a number
  \<open>n\<close>; a token whose value is \<^verbatim>\<open>BEGIN\<close>, \<^verbatim>\<open>IF\<close> or \<^verbatim>\<open>LOOP\<close> in upper case (a word: not
  of type semicolon or whitespace) changes nothing but \<^verbatim>\<open>openBlocks\<close>, which becomes
  \<open>n + 1\<close>; a token whose value is \<^verbatim>\<open>END\<close> makes it \<open>n - 1\<close>; and \<^verbatim>\<open>canEnd\<close> goes from
  unset to set only on an \<^verbatim>\<open>END\<close> that brings \<^verbatim>\<open>openBlocks\<close> back to 0.
\<close>

theorem psql_function_block_depth:
  assumes "dialect_opt opts = ''psql''"
    and "addTokens (createCreateStatementParser opts) ts = Inr p"
    and "type_stmt (statement p) = Some ''CREATE_FUNCTION''"
    and "\<not> truthy (endStatement (statement p))"
  shows
    "\<exists>n. openBlocks (statement p) = JNum n
       \<and> (toUpperCase (value_tok tok) \<in> set blockOpeners
           \<and> type_tok tok \<noteq> Semicolon \<and> type_tok tok \<noteq> Whitespace \<longrightarrow>
             addToken p tok
               = Inr (p\<lparr>statement := (statement p)\<lparr>openBlocks := JNum (n + 1)\<rparr>\<rparr>))
       \<and> (toUpperCase (value_tok tok) = ''END'' \<and> type_tok tok \<noteq> Semicolon \<longrightarrow>
             (\<exists>p'. addToken p tok = Inr p'
                \<and> openBlocks (statement p') = JNum (n - 1)
                \<and> (canEnd (statement p') \<longleftrightarrow> canEnd (statement p) \<or> n - 1 = 0)))
       \<and> (\<forall>p'. addToken p tok = Inr p' \<and> \<not> canEnd (statement p) \<and> canEnd (statement p')
             \<longrightarrow> openBlocks (statement p') = JNum 0
                 \<and> toUpperCase (value_tok tok) = ''END'')"
proof -
  from addTokens_create_inv [OF create_inv_init assms(2)]
  have inv: "create_inv (dialect_opt opts) p" .
  with assms(1) have d: "dialect p = ''psql''" "definer (statement p) = Undefined"
    "is_num (openBlocks (statement p))"
    by (simp_all add: create_inv_def dialectsWithOpenBlocks_def)
  from d(3) obtain n where n: "openBlocks (statement p) = JNum n"
    by (cases "openBlocks (statement p)") simp_all
  have ty: "truthy (type_stmt (statement p))"
    "includes_type statementsWithEnds (type_stmt (statement p))"
    using assms(3) by (simp_all add: includes_type_def statementsWithEnds_def)
  have dd: "dialect p \<in> set dialectsWithEnds" "dialect p \<in> set dialectsWithOpenBlocks"
    "dialect p \<noteq> ''mysql''"
    using d(1) by (simp_all add: dialectsWithEnds_def dialectsWithOpenBlocks_def)
  from addToken_end_typed [OF ty(1) d(2) dd(3), of tok]
  obtain q where q0: "addToken_end p tok = Inr q"
    "canEnd (statement q) \<longleftrightarrow>
                canEnd (statement p)
                \<or> (dialect p \<in> set dialectsWithEnds
                    \<and> includes_type statementsWithEnds (type_stmt (statement p))
                    \<and> toUpperCase (value_tok tok) = ''END''
                    \<and> (dialect p \<notin> set dialectsWithOpenBlocks
                        \<or> js_decr (openBlocks (statement p)) = JNum 0))"
    "openBlocks (statement q) =
               (if dialect p \<in> set dialectsWithEnds
                    \<and> includes_type statementsWithEnds (type_stmt (statement p))
                    \<and> toUpperCase (value_tok tok) = ''END''
                then js_decr (openBlocks (statement p))
                else if type_tok tok \<noteq> Whitespace
                    \<and> dialect p \<in> set dialectsWithOpenBlocks
                    \<and> toUpperCase (value_tok tok) \<in> set blockOpeners
                then js_incr (openBlocks (statement p))
                else openBlocks (statement p))"
    by blast
  have q: "addToken_end p tok = Inr q"
    "canEnd (statement q) \<longleftrightarrow>
       canEnd (statement p) \<or> (toUpperCase (value_tok tok) = ''END'' \<and> n - 1 = 0)"
    "toUpperCase (value_tok tok) = ''END'' \<longrightarrow> openBlocks (statement q) = JNum (n - 1)"
    using q0 dd ty(2) n by (simp_all add: js_decr_def)
  let ?e = "p\<lparr>statement := (statement p)\<lparr>endStatement := Some '';''\<rparr>\<rparr>"
  have cases: "addToken p tok = Inr ?e \<and> canEnd (statement p) \<and> type_tok tok = Semicolon
               \<or> addToken p tok = Inr q \<and> (type_tok tok = Semicolon \<longrightarrow> \<not> canEnd (statement p))"
    using assms(3,4) dd ty q(1) by (auto simp add: addToken_def Let_def)
  have 1: "toUpperCase (value_tok tok) \<in> set blockOpeners
           \<and> type_tok tok \<noteq> Semicolon \<and> type_tok tok \<noteq> Whitespace \<longrightarrow>
             addToken p tok
               = Inr (p\<lparr>statement := (statement p)\<lparr>openBlocks := JNum (n + 1)\<rparr>\<rparr>)"
    using assms(4) d(1) n typed_definer [OF ty(1) d(2) dd(3)]
    by (auto simp add: addToken_def addToken_end_def addToken_skip_def Let_def
        blockOpeners_def dialectsWithOpenBlocks_def js_incr_def)
  have 2: "toUpperCase (value_tok tok) = ''END'' \<and> type_tok tok \<noteq> Semicolon \<longrightarrow>
             (\<exists>p'. addToken p tok = Inr p'
                \<and> openBlocks (statement p') = JNum (n - 1)
                \<and> (canEnd (statement p') \<longleftrightarrow> canEnd (statement p) \<or> n - 1 = 0))"
    using cases q by auto
  have 3: "\<forall>p'. addToken p tok = Inr p' \<and> \<not> canEnd (statement p) \<and> canEnd (statement p')
             \<longrightarrow> openBlocks (statement p') = JNum 0
                 \<and> toUpperCase (value_tok tok) = ''END''"
    using cases q by auto
  from n 1 2 3 show ?thesis by blast
qed

text \<open>
  A function with two nested blocks under \<^verbatim>\<open>psql\<close>: the second \<^verbatim>\<open>BEGIN\<close> (token 10) takes
  the counter from 1 to 2, the first \<^verbatim>\<open>END\<close> (token 15) from 2 to 1 without setting
  \<^verbatim>\<open>canEnd\<close>, the second \<^verbatim>\<open>END\<close> (token 18) from 1 to 0 and sets \<^verbatim>\<open>canEnd\<close>.
\<close>

theorem psql_function_block_depth_witness:
  "(case addTokens (createCreateStatementParser \<lparr>isStrict_opt = True, dialect_opt = ''psql''\<rparr>)
           (take 10 nested_tokens) of
      Inl e \<Rightarrow> False
    | Inr p \<Rightarrow>
        type_stmt (statement p) = Some ''CREATE_FUNCTION''
        \<and> openBlocks (statement p) = JNum 1 \<and> value_tok (nested_tokens ! 10) = ''BEGIN''
        \<and> addToken p (nested_tokens ! 10)
            = Inr (p\<lparr>statement := (statement p)\<lparr>openBlocks := JNum 2\<rparr>\<rparr>))
   \<and> (case addTokens (createCreateStatementParser \<lparr>isStrict_opt = True, dialect_opt = ''psql''\<rparr>)
           (take 15 nested_tokens) of
      Inl e \<Rightarrow> False
    | Inr p \<Rightarrow>
        openBlocks (statement p) = JNum 2 \<and> value_tok (nested_tokens ! 15) = ''END''
        \<and> (case addToken p (nested_tokens ! 15) of
              Inl e \<Rightarrow> False
            | Inr p' \<Rightarrow> openBlocks (statement p') = JNum 1 \<and> \<not> canEnd (statement p')))
   \<and> (case addTokens (createCreateStatementParser \<lparr>isStrict_opt = True, dialect_opt = ''psql''\<rparr>)
           (take 18 nested_tokens) of
      Inl e \<Rightarrow> False
    | Inr p \<Rightarrow>
        openBlocks (statement p) = JNum 1 \<and> value_tok (nested_tokens ! 18) = ''END''
        \<and> (case addToken p (nested_tokens ! 18) of
              Inl e \<Rightarrow> False
            | Inr p' \<Rightarrow> openBlocks (statement p') = JNum 0 \<and> canEnd (statement p')))"
proof -
  let ?opts = "\<lparr>isStrict_opt = True, dialect_opt = ''psql''\<rparr>"
  have d: "dialect_opt ?opts = ''psql''" by simp
  have t: "value_tok (nested_tokens ! 10) = ''BEGIN''"
    "toUpperCase (value_tok (nested_tokens ! 10)) \<in> set blockOpeners"
    "type_tok (nested_tokens ! 10) \<noteq> Semicolon" "type_tok (nested_tokens ! 10) \<noteq> Whitespace"
    "value_tok (nested_tokens ! 15) = ''END''"
    "toUpperCase (value_tok (nested_tokens ! 15)) = ''END''"
    "type_tok (nested_tokens ! 15) \<noteq> Semicolon"
    "value_tok (nested_tokens ! 18) = ''END''"
    "toUpperCase (value_tok (nested_tokens ! 18)) = ''END''"
    "type_tok (nested_tokens ! 18) \<noteq> Semicolon"
    by (simp_all add: nested_tokens_def tk_def toUpperCase_def upper_char_def blockOpeners_def)
  obtain p10 where p10: "addTokens (createCreateStatementParser ?opts)
                           (take 10 nested_tokens) = Inr p10"
    and a10: "type_stmt (statement p10) = Some ''CREATE_FUNCTION''"
      "openBlocks (statement p10) = JNum 1" "\<not> truthy (endStatement (statement p10))"
    by (simp add: parser_eval nested_tokens_def)
  obtain p15 where p15: "addTokens (createCreateStatementParser ?opts)
                           (take 15 nested_tokens) = Inr p15"
    and a15: "type_stmt (statement p15) = Some ''CREATE_FUNCTION''"
      "openBlocks (statement p15) = JNum 2" "\<not> truthy (endStatement (statement p15))"
      "\<not> canEnd (statement p15)"
    by (simp add: parser_eval nested_tokens_def)
  obtain p18 where p18: "addTokens (createCreateStatementParser ?opts)
                           (take 18 nested_tokens) = Inr p18"
    and a18: "type_stmt (statement p18) = Some ''CREATE_FUNCTION''"
      "openBlocks (statement p18) = JNum 1" "\<not> truthy (endStatement (statement p18))"
    by (simp add: parser_eval nested_tokens_def)
  have 1: "addToken p10 (nested_tokens ! 10)
            = Inr (p10\<lparr>statement := (statement p10)\<lparr>openBlocks := JNum 2\<rparr>\<rparr>)"
  proof -
    from psql_function_block_depth [OF d p10 a10(1) a10(3), of "nested_tokens ! 10"]
    obtain n where n: "openBlocks (statement p10) = JNum n"
      and o: "toUpperCase (value_tok (nested_tokens ! 10)) \<in> set blockOpeners
           \<and> type_tok (nested_tokens ! 10) \<noteq> Semicolon
           \<and> type_tok (nested_tokens ! 10) \<noteq> Whitespace \<longrightarrow>
             addToken p10 (nested_tokens ! 10)
               = Inr (p10\<lparr>statement := (statement p10)\<lparr>openBlocks := JNum (n + 1)\<rparr>\<rparr>)"
      by blast
    from n a10(2) have "n = 1" by simp
    with o t(2,3,4) show ?thesis by simp
  qed
  have 2: "\<exists>p'. addToken p15 (nested_tokens ! 15) = Inr p'
             \<and> openBlocks (statement p') = JNum 1 \<and> \<not> canEnd (statement p')"
  proof -
    from psql_function_block_depth [OF d p15 a15(1) a15(3), of "nested_tokens ! 15"]
    obtain n where n: "openBlocks (statement p15) = JNum n"
      and o: "toUpperCase (value_tok (nested_tokens ! 15)) = ''END''
           \<and> type_tok (nested_tokens ! 15) \<noteq> Semicolon \<longrightarrow>
             (\<exists>p'. addToken p15 (nested_tokens ! 15) = Inr p'
                \<and> openBlocks (statement p') = JNum (n - 1)
                \<and> (canEnd (statement p') \<longleftrightarrow> canEnd (statement p15) \<or> n - 1 = 0))"
      by blast
    from n a15(2) have "n = 2" by simp
    with o t(6,7) a15(4) show ?thesis by simp
  qed
  have 3: "\<exists>p'. addToken p18 (nested_tokens ! 18) = Inr p'
             \<and> openBlocks (statement p') = JNum 0 \<and> canEnd (statement p')"
  proof -
    from psql_function_block_depth [OF d p18 a18(1) a18(3), of "nested_tokens ! 18"]
    obtain n where n: "openBlocks (statement p18) = JNum n"
      and o: "toUpperCase (value_tok (nested_tokens ! 18)) = ''END''
           \<and> type_tok (nested_tokens ! 18) \<noteq> Semicolon \<longrightarrow>
             (\<exists>p'. addToken p18 (nested_tokens ! 18) = Inr p'
                \<and> openBlocks (statement p') = JNum (n - 1)
                \<and> (canEnd (statement p') \<longleftrightarrow> canEnd (statement p18) \<or> n - 1 = 0))"
      by blast
    from n a18(2) have "n = 1" by simp
    with o t(9,10) show ?thesis by simp
  qed
  from 1 2 3 p10 p15 p18 a10 a15 a18 t(1,5,8) show ?thesis by (auto simp del: nth_Cons_numeral)
qed

section \<open>The definer clause of MySQL\<close>

lemma addTokens_append:
  "addTokens p (xs @ ys) =
     (case addTokens p xs of Inl e \<Rightarrow> Inl e | Inr q \<Rightarrow> addTokens q ys)"
  by (induction xs arbitrary: p) (auto split: sum.splits)

lemma mysql_whitespace:
  assumes "dialect p = ''mysql''" "\<not> truthy (endStatement (statement p))"
    "type_tok tok = Whitespace"
  shows "addToken p tok = Inr (p\<lparr>prevToken := Some tok\<rparr>)"
  using assms
  by (simp add: addToken_def addToken_end_def addToken_skip_def dialectsWithEnds_def)

lemma mysql_whitespace_run:
  assumes "dialect p = ''mysql''" "\<not> truthy (endStatement (statement p))"
    "\<forall>t\<in>set ws. type_tok t = Whitespace"
  shows "addTokens p ws = Inr (if ws = [] then p else p\<lparr>prevToken := Some (last ws)\<rparr>)"
  using assms
proof (induction ws arbitrary: p)
  case Nil
  then show ?case by simp
next
  case (Cons t ws)
  let ?q = "p\<lparr>prevToken := Some t\<rparr>"
  from Cons.prems have a: "addToken p t = Inr ?q" by (simp add: mysql_whitespace)
  from Cons.prems have "addTokens ?q ws = Inr (if ws = [] then ?q else ?q\<lparr>prevToken := Some (last ws)\<rparr>)"
    by (intro Cons.IH) simp_all
  with a show ?case by simp
qed

lemma mysql_pass:
  assumes "dialect p = ''mysql''" "\<not> truthy (endStatement (statement p))"
    "type_tok tok \<noteq> Whitespace" "type_tok tok \<noteq> Semicolon"
  shows "addToken p tok = addToken_definer p tok"
  using assms
  by (simp add: addToken_def addToken_end_def addToken_skip_def dialectsWithEnds_def
      dialectsWithOpenBlocks_def)

lemma mysql_principal:
  assumes "dialect p = ''mysql''" "\<not> truthy (endStatement (statement p))"
    "definer (statement p) = JNum 2" "prevToken p = Some x" "type_tok x \<noteq> Whitespace"
    "type_tok tok \<noteq> Whitespace" "type_tok tok \<noteq> Semicolon"
    "toUpperCase (value_tok tok) \<noteq> ''DEFINER''"
  shows "addToken p tok = Inr (p\<lparr>prevToken := Some tok\<rparr>)"
  using assms by (simp add: mysql_pass addToken_definer_def js_gt_def)

lemma mysql_principal_run:
  assumes "dialect p = ''mysql''" "\<not> truthy (endStatement (statement p))"
    "definer (statement p) = JNum 2" "prevToken p = Some x" "type_tok x \<noteq> Whitespace"
    "\<forall>t\<in>set pr. type_tok t \<noteq> Whitespace \<and> type_tok t \<noteq> Semicolon
                  \<and> toUpperCase (value_tok t) \<noteq> ''DEFINER''"
  shows "addTokens p pr = Inr (if pr = [] then p else p\<lparr>prevToken := Some (last pr)\<rparr>)"
  using assms
proof (induction pr arbitrary: p x)
  case Nil
  then show ?case by simp
next
  case (Cons t pr)
  let ?q = "p\<lparr>prevToken := Some t\<rparr>"
  from Cons.prems have a: "addToken p t = Inr ?q" by (simp add: mysql_principal)
  from Cons.prems
  have "addTokens ?q pr = Inr (if pr = [] then ?q else ?q\<lparr>prevToken := Some (last pr)\<rparr>)"
    by (intro Cons.IH [where x = t]) simp_all
  with a show ?case by simp
qed


lemma addToken_step_type_stable:
  "truthy (type_stmt (statement p)) \<Longrightarrow> addToken_step p tok = Inr p' \<Longrightarrow>
   type_stmt (statement p') = type_stmt (statement p)"
  by (simp add: addToken_step_def)

lemma addToken_definer_type_stable:
  assumes "truthy (type_stmt (statement p))" "addToken_definer p tok = Inr p'"
  shows "type_stmt (statement p') = type_stmt (statement p)"
  using assms
  by (auto simp add: addToken_definer_def addToken_step_def Let_def split: if_splits)

lemma addToken_skip_type_stable:
  assumes "truthy (type_stmt (statement p))" "addToken_skip p tok = Inr p'"
  shows "type_stmt (statement p') = type_stmt (statement p)"
  using assms addToken_definer_type_stable [OF assms(1), of tok p']
  by (auto simp add: addToken_skip_def split: if_splits)

lemma addToken_end_type_stable:
  assumes "truthy (type_stmt (statement p))" "addToken_end p tok = Inr p'"
  shows "type_stmt (statement p') = type_stmt (statement p)"
proof -
  let ?p1 = "p\<lparr>statement := (statement p)\<lparr>openBlocks := js_decr (openBlocks (statement p))\<rparr>\<rparr>"
  have k: "truthy (type_stmt (statement ?p1))" using assms(1) by simp
  from assms addToken_skip_type_stable [OF assms(1), of tok p']
    addToken_skip_type_stable [OF k, of tok p']
  show ?thesis
    by (auto simp add: addToken_end_def Let_def split: if_splits)
qed

lemma addToken_type_stable:
  assumes "truthy (type_stmt (statement p))" "addToken p tok = Inr p'"
  shows "type_stmt (statement p') = type_stmt (statement p)"
  using assms addToken_end_type_stable [OF assms(1), of tok p']
  by (auto simp add: addToken_def Let_def split: if_splits)

lemma step_create_classification:
  assumes "steps p = create_steps"
  shows "map_sum id classification
           (addToken_step (p\<lparr>statement := (statement p)\<lparr>definer := v\<rparr>, prevToken := pt\<rparr>) tok)
         = map_sum id classification (addToken_step p tok)"
proof -
  consider "currentStepIndex p = 0" | "currentStepIndex p = 1" | "2 \<le> currentStepIndex p"
    by linarith
  then show ?thesis
  proof cases
    case 1
    with assms show ?thesis
      by (simp add: addToken_step_def classification_def create_steps_def Let_def
          hasRequiredBefore_def isValidToken_def)
  next
    case 2
    with assms show ?thesis
      by (simp add: addToken_step_def classification_def create_steps_def Let_def
          hasRequiredBefore_def isValidToken_def)
  next
    case 3
    with assms show ?thesis
      by (simp add: addToken_step_def classification_def create_steps_def)
  qed
qed

lemma upper_eq: "toUpperCase ''='' = ''=''"
  by (simp add: toUpperCase_def upper_char_def)


text \<open>
  The clause written with blanks around \<^verbatim>\<open>=\<close>. For the CREATE classifier of dialect
  \<^verbatim>\<open>mysql\<close> after any tokens, its statement not terminated, and a clause made of the word
  \<^verbatim>\<open>DEFINER\<close>, any whitespace, the token \<^verbatim>\<open>=\<close>, some whitespace, the tokens of the
  principal (none of them whitespace, a semicolon or \<^verbatim>\<open>DEFINER\<close>) and some whitespace:
  \<^verbatim>\<open>DEFINER\<close> sets the counter to 0, \<^verbatim>\<open>=\<close> sets it to 1, the first token of the principal
  sets it to 2, and the whole clause is consumed leaving the classifier as it was but for
  the counter (2) and the previous token; whitespace never moves the counter. The token
  after the clause is then classified as it would be without the clause (same error, or
  same type, execution type and start), and a type once set is never changed by a later
  token.
\<close>

lemma definer_clause_transparent:
  assumes my: "dialect_opt opts = ''mysql''"
    and run: "addTokens (createCreateStatementParser opts) ts = Inr p"
    and ne: "\<not> truthy (endStatement (statement p))"
    and d: "toUpperCase (value_tok d) = ''DEFINER''" "type_tok d \<noteq> Whitespace"
      "type_tok d \<noteq> Semicolon"
    and ws1: "\<forall>t\<in>set ws1. type_tok t = Whitespace"
    and eq: "value_tok eq = ''=''" "type_tok eq \<noteq> Whitespace" "type_tok eq \<noteq> Semicolon"
    and ws2: "ws2 \<noteq> []" "\<forall>t\<in>set ws2. type_tok t = Whitespace"
    and pr: "pr \<noteq> []"
      "\<forall>t\<in>set pr. type_tok t \<noteq> Whitespace \<and> type_tok t \<noteq> Semicolon
                    \<and> toUpperCase (value_tok t) \<noteq> ''DEFINER''"
    and ws3: "ws3 \<noteq> []" "\<forall>t\<in>set ws3. type_tok t = Whitespace"
  shows
    "addToken p d = Inr (p\<lparr>statement := (statement p)\<lparr>definer := JNum 0\<rparr>,
                           prevToken := Some d\<rparr>)
     \<and> addTokens p (d # ws1 @ [eq])
         = Inr (p\<lparr>statement := (statement p)\<lparr>definer := JNum 1\<rparr>, prevToken := Some eq\<rparr>)
     \<and> addTokens p (d # ws1 @ eq # ws2 @ [hd pr])
         = Inr (p\<lparr>statement := (statement p)\<lparr>definer := JNum 2\<rparr>,
                  prevToken := Some (hd pr)\<rparr>)
     \<and> addTokens p (d # ws1 @ eq # ws2 @ pr @ ws3)
         = Inr (p\<lparr>statement := (statement p)\<lparr>definer := JNum 2\<rparr>,
                  prevToken := Some (last ws3)\<rparr>)
     \<and> (definer (statement p) \<in> {Undefined, JBool False} \<and> type_tok t \<noteq> Whitespace \<longrightarrow>
          map_sum id classification (addTokens p (d # ws1 @ eq # ws2 @ pr @ ws3 @ [t]))
            = map_sum id classification (addToken p t))
     \<and> (\<forall>q tok q'. truthy (type_stmt (statement q)) \<and> addToken q tok = Inr q' \<longrightarrow>
          type_stmt (statement q') = type_stmt (statement q))"
proof -
  from addTokens_create_inv [OF create_inv_init run] my
  have inv: "dialect p = ''mysql''" "steps p = create_steps"
    by (simp_all add: create_inv_def)
  let ?s = "statement p"
  let ?s1 = "p\<lparr>statement := ?s\<lparr>definer := JNum 0\<rparr>, prevToken := Some d\<rparr>"
  let ?s1' = "if ws1 = [] then ?s1 else ?s1\<lparr>prevToken := Some (last ws1)\<rparr>"
  let ?s2 = "p\<lparr>statement := ?s\<lparr>definer := JNum 1\<rparr>, prevToken := Some eq\<rparr>"
  let ?s2' = "p\<lparr>statement := ?s\<lparr>definer := JNum 1\<rparr>, prevToken := Some (last ws2)\<rparr>"
  let ?s3 = "p\<lparr>statement := ?s\<lparr>definer := JNum 2\<rparr>, prevToken := Some (hd pr)\<rparr>"
  let ?s3' = "p\<lparr>statement := ?s\<lparr>definer := JNum 2\<rparr>, prevToken := Some (last pr)\<rparr>"
  let ?s4 = "p\<lparr>statement := ?s\<lparr>definer := JNum 2\<rparr>, prevToken := Some (last ws3)\<rparr>"
  have a1: "addToken p d = Inr ?s1"
    using inv(1) ne d by (simp add: mysql_pass addToken_definer_def)
  have a1': "addTokens ?s1 ws1 = Inr ?s1'"
    using inv(1) ne ws1 by (intro mysql_whitespace_run) simp_all
  have a2: "addToken ?s1' eq = Inr ?s2"
    using inv(1) ne eq
    by (simp add: mysql_pass addToken_definer_def upper_eq js_incr_def)
  have a2': "addTokens ?s2 ws2 = Inr ?s2'"
    using mysql_whitespace_run [of ?s2 ws2] inv(1) ne ws2 by simp
  have lw2: "type_tok (last ws2) = Whitespace" using ws2 by simp
  have hp: "type_tok (hd pr) \<noteq> Whitespace" "type_tok (hd pr) \<noteq> Semicolon"
    "toUpperCase (value_tok (hd pr)) \<noteq> ''DEFINER''"
    using pr by simp_all
  have a3: "addToken ?s2' (hd pr) = Inr ?s3"
    using inv(1) ne hp lw2
    by (simp add: mysql_pass addToken_definer_def js_gt_def js_incr_def)
  have tp: "\<forall>t\<in>set (tl pr). type_tok t \<noteq> Whitespace \<and> type_tok t \<noteq> Semicolon
                    \<and> toUpperCase (value_tok t) \<noteq> ''DEFINER''"
    using pr by (cases pr) simp_all
  have lp: "last pr = (if tl pr = [] then hd pr else last (tl pr))"
    using pr(1) by (cases pr) simp_all
  have a3': "addTokens ?s3 (tl pr) = Inr ?s3'"
    using mysql_principal_run [of ?s3 "hd pr" "tl pr"] inv(1) ne hp(1) tp lp by simp
  have a4: "addTokens ?s3' ws3 = Inr ?s4"
    using mysql_whitespace_run [of ?s3' ws3] inv(1) ne ws3 by simp
  have r1: "addTokens p (d # ws1 @ [eq]) = Inr ?s2"
    using a1 a1' a2 by (simp add: addTokens_append)
  have r2: "addTokens p (d # ws1 @ eq # ws2 @ [hd pr]) = Inr ?s3"
    using a1 a1' a2 a2' a3 by (simp add: addTokens_append)
  have pr_split: "pr = hd pr # tl pr" using pr(1) by simp
  have "addTokens p (d # ws1 @ eq # ws2 @ (hd pr # tl pr) @ ws3) = Inr ?s4"
    using a1 a1' a2 a2' a3 a3' a4 by (simp add: addTokens_append)
  with pr_split have r3: "addTokens p (d # ws1 @ eq # ws2 @ pr @ ws3) = Inr ?s4" by simp
  have lw3: "type_tok (last ws3) = Whitespace" using ws3 by simp
  have r4: "map_sum id classification (addToken ?s4 t)
              = map_sum id classification (addToken p t)"
    if inactive: "definer (statement p) \<in> {Undefined, JBool False}"
      and nw: "type_tok t \<noteq> Whitespace"
  proof (cases "type_tok t = Semicolon")
    case True
    with inv(1) ne show ?thesis
      by (simp add: addToken_def dialectsWithEnds_def classification_def)
  next
    case False
    have p4: "addToken ?s4 t = addToken_definer ?s4 t" "addToken p t = addToken_definer p t"
      using inv(1) ne nw False by (simp_all add: mysql_pass)
    show ?thesis
    proof (cases "toUpperCase (value_tok t) = ''DEFINER''")
      case True
      with inv(1) show ?thesis
        unfolding p4 by (simp add: addToken_definer_def classification_def)
    next
      case False
      with inv(1) inactive lw3
      have e1: "addToken_definer ?s4 t
              = addToken_step (?s4\<lparr>statement := (statement ?s4)\<lparr>definer := JBool False\<rparr>\<rparr>) t"
        and e2: "addToken_definer p t = addToken_step p t"
        by (auto simp add: addToken_definer_def js_gt_def)
      have e3: "?s4\<lparr>statement := (statement ?s4)\<lparr>definer := JBool False\<rparr>\<rparr>
              = p\<lparr>statement := ?s\<lparr>definer := JBool False\<rparr>,
                                  prevToken := Some (last ws3)\<rparr>"
        by simp
      show ?thesis
        unfolding p4 e1 e2 e3 by (rule step_create_classification [OF inv(2)])
    qed
  qed
  have r5: "map_sum id classification (addTokens p (d # ws1 @ eq # ws2 @ pr @ ws3 @ [t]))
            = map_sum id classification (addToken p t)"
    if "definer (statement p) \<in> {Undefined, JBool False}" "type_tok t \<noteq> Whitespace"
  proof -
    have "addTokens p ((d # ws1 @ eq # ws2 @ pr @ ws3) @ [t]) = addToken ?s4 t"
      unfolding addTokens_append r3 by (simp split: sum.splits)
    with r4 [OF that] show ?thesis by simp
  qed
  from a1 r1 r2 r3 r5 addToken_type_stable show ?thesis by blast
qed


text \<open>
  The input \<^verbatim>\<open>CREATE DEFINER = u@h FUNCTION f();\<close>: after \<^verbatim>\<open>CREATE\<close> and a blank, the eight
  tokens of the clause leave the counter at 2, and \<^verbatim>\<open>FUNCTION\<close> then gives the type
  \<^verbatim>\<open>CREATE_FUNCTION\<close>, as it does when fed right after \<^verbatim>\<open>CREATE\<close> and the blank.
\<close>

lemma definer_clause_transparent_spaced:
  "(case addTokens (createCreateStatementParser \<lparr>isStrict_opt = True, dialect_opt = ''mysql''\<rparr>)
           (take 2 definer_spaced_tokens) of
      Inl e \<Rightarrow> False
    | Inr p \<Rightarrow>
        type_stmt (statement p) = None \<and> definer (statement p) = Undefined
        \<and> addTokens p (drop 2 (take 10 definer_spaced_tokens))
            = Inr (p\<lparr>statement := (statement p)\<lparr>definer := JNum 2\<rparr>,
                     prevToken := Some (definer_spaced_tokens ! 9)\<rparr>)
        \<and> map_sum id classification (addTokens p (drop 2 (take 11 definer_spaced_tokens)))
            = map_sum id classification (addToken p (definer_spaced_tokens ! 10))
        \<and> map_sum id classification (addToken p (definer_spaced_tokens ! 10))
            = Inr (Some ''CREATE_FUNCTION'', Some ''MODIFICATION'', Some 0))"
proof -
  let ?opts = "\<lparr>isStrict_opt = True, dialect_opt = ''mysql''\<rparr>"
  let ?T = definer_spaced_tokens
  have my: "dialect_opt ?opts = ''mysql''" by simp
  obtain p where p: "addTokens (createCreateStatementParser ?opts) (take 2 ?T) = Inr p"
    and a: "type_stmt (statement p) = None" "definer (statement p) = Undefined"
      "\<not> truthy (endStatement (statement p))"
    and c: "map_sum id classification (addToken p (?T ! 10))
            = Inr (Some ''CREATE_FUNCTION'', Some ''MODIFICATION'', Some 0)"
    by (simp add: parser_eval definer_spaced_tokens_def classification_def)
  have l: "drop 2 (take 10 ?T)
             = ?T ! 2 # [?T ! 3] @ ?T ! 4 # [?T ! 5] @ [?T ! 6, ?T ! 7, ?T ! 8] @ [?T ! 9]"
    "drop 2 (take 11 ?T)
             = ?T ! 2 # [?T ! 3] @ ?T ! 4 # [?T ! 5] @ [?T ! 6, ?T ! 7, ?T ! 8] @ [?T ! 9]
                 @ [?T ! 10]"
    by (simp_all add: definer_spaced_tokens_def)
  have t: "toUpperCase (value_tok (?T ! 2)) = ''DEFINER''" "type_tok (?T ! 2) \<noteq> Whitespace"
    "type_tok (?T ! 2) \<noteq> Semicolon" "\<forall>t\<in>set [?T ! 3]. type_tok t = Whitespace"
    "value_tok (?T ! 4) = ''=''" "type_tok (?T ! 4) \<noteq> Whitespace"
    "type_tok (?T ! 4) \<noteq> Semicolon" "[?T ! 5] \<noteq> []"
    "\<forall>t\<in>set [?T ! 5]. type_tok t = Whitespace" "[?T ! 6, ?T ! 7, ?T ! 8] \<noteq> []"
    "\<forall>t\<in>set [?T ! 6, ?T ! 7, ?T ! 8]. type_tok t \<noteq> Whitespace \<and> type_tok t \<noteq> Semicolon
          \<and> toUpperCase (value_tok t) \<noteq> ''DEFINER''"
    "[?T ! 9] \<noteq> []" "\<forall>t\<in>set [?T ! 9]. type_tok t = Whitespace"
    "type_tok (?T ! 10) \<noteq> Whitespace"
    by (simp_all add: definer_spaced_tokens_def tk_def toUpperCase_def upper_char_def
        char_of_eq_iff)
  note th = definer_clause_transparent [OF my p a(3) t(1-13), of "?T ! 10"]
  from th have 1: "addTokens p (drop 2 (take 10 ?T))
            = Inr (p\<lparr>statement := (statement p)\<lparr>definer := JNum 2\<rparr>,
                     prevToken := Some (?T ! 9)\<rparr>)"
    unfolding l by (simp del: addTokens.simps)
  from th a(2) t(14)
  have 2: "map_sum id classification (addTokens p (drop 2 (take 11 ?T)))
            = map_sum id classification (addToken p (?T ! 10))"
    unfolding l by (simp del: addTokens.simps)
  from 1 2 p a c show ?thesis by simp
qed

text \<open>
  Claim C7 does not hold of the code, by a defect of the code: the clause is consumed only
  when whitespace follows the \<^verbatim>\<open>=\<close> token. In \<^verbatim>\<open>CREATE DEFINER=u@h FUNCTION f();\<close>, the
  form of the clause the comment at the test describes, the token \<^verbatim>\<open>u\<close> arrives with the
  counter at 1 and \<^verbatim>\<open>=\<close> as the previous token; the test for whitespace before it fails,
  the counter is reset, and \<^verbatim>\<open>u\<close> is matched against the second step of CREATE. In strict
  mode that raises an error; in non-strict mode the statement gets the type \<^verbatim>\<open>CREATE_U\<close>.
  The same statement with blanks around \<^verbatim>\<open>=\<close>, and the statement without the clause, are
  both a \<^verbatim>\<open>CREATE_FUNCTION\<close>.
\<close>

theorem definer_without_space_raises:
  "(case addTokens (createCreateStatementParser \<lparr>isStrict_opt = True, dialect_opt = ''mysql''\<rparr>)
           (take 4 definer_tight_tokens) of
      Inl e \<Rightarrow> False
    | Inr p \<Rightarrow>
        definer (statement p) = JNum 1
        \<and> prevToken p = Some (definer_tight_tokens ! 3)
        \<and> value_tok (definer_tight_tokens ! 3) = ''=''
        \<and> value_tok (definer_tight_tokens ! 4) = ''u''
        \<and> addToken p (definer_tight_tokens ! 4)
            = Inl (ExpectedInstead
                     [(Keyword, ''TABLE''), (Keyword, ''DATABASE''),
                      (Keyword, ''TRIGGER''), (Keyword, ''FUNCTION'')]
                     Unknown ''u'' 1))
   \<and> map_option (map_sum id (map type_stmt \<circ> body))
       (parse (scan_tokens definer_tight_tokens) definer_tight_input True ''mysql'')
     = Some (Inl (ExpectedInstead
                    [(Keyword, ''TABLE''), (Keyword, ''DATABASE''),
                     (Keyword, ''TRIGGER''), (Keyword, ''FUNCTION'')]
                    Unknown ''u'' 1))
   \<and> map_option (map_sum id (map type_stmt \<circ> body))
       (parse (scan_tokens definer_tight_tokens) definer_tight_input False ''mysql'')
     = Some (Inr [Some ''CREATE_U''])
   \<and> map_option (map_sum id (map type_stmt \<circ> body))
       (parse (scan_tokens definer_spaced_tokens) definer_spaced_input True ''mysql'')
     = Some (Inr [Some ''CREATE_FUNCTION''])
   \<and> map_option (map_sum id (map type_stmt \<circ> body))
       (parse (scan_tokens function_tokens) function_input True ''mysql'')
     = Some (Inr [Some ''CREATE_FUNCTION''])"
  by (simp add: parser_eval definer_tight_tokens_def definer_tight_input_def
      definer_spaced_tokens_def definer_spaced_input_def
      function_tokens_def function_input_def)

section \<open>A dialect that is not listed\<close>

lemma step_same:
  assumes "same_but_dialect p q"
  shows "rel_sum (=) same_but_dialect (addToken_step p tok) (addToken_step q tok)"
  using assms
  by (simp add: addToken_step_def same_but_dialect_def Let_def)

lemma definer_same:
  assumes "same_but_dialect p q"
  shows "rel_sum (=) same_but_dialect (addToken_definer p tok) (addToken_definer q tok)"
proof -
  have "same_but_dialect (p\<lparr>statement := s\<rparr>) (q\<lparr>statement := s\<rparr>)" for s
    using assms by (simp add: same_but_dialect_def)
  from this [THEN step_same] step_same [OF assms] assms show ?thesis
    by (auto simp add: addToken_definer_def same_but_dialect_def plain_dialect_def Let_def
        js_gt_def js_incr_def)
qed


lemma skip_same:
  assumes "same_but_dialect p q"
  shows "rel_sum (=) same_but_dialect (addToken_skip p tok) (addToken_skip q tok)"
  using assms definer_same [OF assms, of tok]
  by (auto simp add: addToken_skip_def same_but_dialect_def plain_dialect_def)

lemma end_same:
  assumes "same_but_dialect p q"
  shows "rel_sum (=) same_but_dialect (addToken_end p tok) (addToken_end q tok)"
  using assms skip_same [OF assms, of tok]
  by (auto simp add: addToken_end_def same_but_dialect_def plain_dialect_def)

lemma addToken_same:
  assumes "same_but_dialect p q"
  shows "rel_sum (=) same_but_dialect (addToken p tok) (addToken q tok)"
  using assms end_same [OF assms, of tok]
  by (auto simp add: addToken_def same_but_dialect_def plain_dialect_def Let_def)

lemma plain_generic: "plain_dialect ''generic''"
  by (simp add: plain_dialect_def dialectsWithEnds_def dialectsWithOpenBlocks_def)

lemma plain_not_listed: "dia \<notin> set DIALECTS \<Longrightarrow> plain_dialect dia"
  by (auto simp add: plain_dialect_def DIALECTS_def dialectsWithEnds_def
      dialectsWithOpenBlocks_def)

lemma created_same:
  assumes "plain_dialect (dialect_opt opts)" "plain_dialect (dialect_opt opts')"
    "isStrict_opt opts = isStrict_opt opts'"
  shows "rel_sum (=) same_but_dialect
           (createStatementParserByToken tok opts) (createStatementParserByToken tok opts')"
  using assms plain_generic
  by (simp add: createStatementParserByToken_def Let_def createSelectStatementParser_def
      createInsertStatementParser_def createUpdateStatementParser_def
      createDeleteStatementParser_def createTruncateStatementParser_def
      createCreateStatementParser_def createDropStatementParser_def
      createUnknownStatementParser_def stateMachineStatementParser_def
      same_but_dialect_def plain_dialect_def)


lemma rel_sumE [consumes 1, case_names Inl Inr]:
  assumes "rel_sum R S x y"
  obtains (Inl) a b where "x = Inl a" "y = Inl b" "R a b"
  | (Inr) a b where "x = Inr a" "y = Inr b" "S a b"
  using assms by (cases x; cases y) auto

lemma parse_iter_same:
  assumes sl: "same_loop l l'"
    and pl: "plain_dialect (dialect_opt opts)" "plain_dialect (dialect_opt opts')"
      "isStrict_opt opts = isStrict_opt opts'"
  shows "rel_sum (=) same_loop (parse_iter scanToken opts l) (parse_iter scanToken opts' l')"
proof -
  obtain tok st' where sc: "scanToken (initState_prev (prevState l)) = (tok, st')"
    by (cases "scanToken (initState_prev (prevState l))")
  from sl have eq: "prevState l' = prevState l" "topLevelStatement l' = topLevelStatement l"
    by (simp_all add: same_loop_def)
  have after: "rel_sum (=) same_loop
      (case addToken sp tok of
         Inl e \<Rightarrow> Inl e
       | Inr sp' \<Rightarrow>
           if truthy (endStatement (statement sp'))
           then Inr \<lparr>prevState = st', statementParser = None, topLevelStatement = a sp'\<rparr>
           else Inr \<lparr>prevState = st', statementParser = Some sp', topLevelStatement = b\<rparr>)
      (case addToken sq tok of
         Inl e \<Rightarrow> Inl e
       | Inr sp' \<Rightarrow>
           if truthy (endStatement (statement sp'))
           then Inr \<lparr>prevState = st', statementParser = None, topLevelStatement = a sp'\<rparr>
           else Inr \<lparr>prevState = st', statementParser = Some sp', topLevelStatement = b\<rparr>)"
    if r: "same_but_dialect sp sq"
      and a: "\<And>x y. statement x = statement y \<Longrightarrow> a x = a y"
    for sp sq a b
  proof -
    from addToken_same [OF r, of tok] show ?thesis
    proof (cases rule: rel_sumE)
      case (Inl e e')
      then show ?thesis by simp
    next
      case (Inr x y)
      then have "statement x = statement y" by (simp add: same_but_dialect_def)
      with Inr a [of x y] show ?thesis by (simp add: same_loop_def)
    qed
  qed
  show ?thesis
  proof (cases "statementParser l")
    case None
    with sl have n': "statementParser l' = None" by (simp add: same_loop_def)
    show ?thesis
    proof (cases "type_tok tok \<in> set ignoreOutsideBlankTokens")
      case True
      with None n' sc eq sl show ?thesis
        by (simp add: parse_iter_def Let_def same_loop_def)
    next
      case False
      from created_same [OF pl, of tok] show ?thesis
      proof (cases rule: rel_sumE)
        case (Inl e e')
        with None n' sc eq False show ?thesis by (simp add: parse_iter_def Let_def)
      next
        case (Inr sp sq)
        from after [OF Inr(3)] None n' sc eq False Inr(1,2) show ?thesis
          by (simp add: parse_iter_def Let_def)
      qed
    qed
  next
    case (Some sp)
    with sl obtain sq where s': "statementParser l' = Some sq" and r: "same_but_dialect sp sq"
      by (auto simp add: same_loop_def option_rel_Some1)
    from after [OF r] Some s' sc eq show ?thesis
      by (simp add: parse_iter_def Let_def)
  qed
qed

lemma parse_loop_same:
  assumes run: "parse_loop scanToken opts e l = Some r"
    and sl: "same_loop l l'"
    and pl: "plain_dialect (dialect_opt opts)" "plain_dialect (dialect_opt opts')"
      "isStrict_opt opts = isStrict_opt opts'"
  shows "\<exists>r'. parse_loop scanToken opts' e l' = Some r' \<and> rel_sum (=) same_loop r r'"
  using run sl pl
proof (induction scanToken opts e l r arbitrary: l' rule: parse_loop.raw_induct)
  case (1 f sc op en l r)
  note IH = "1.IH" and eq = "1.hyps"
  from \<open>same_loop l l'\<close> have ps: "prevState l' = prevState l" by (simp add: same_loop_def)
  have pi: "rel_sum (=) same_loop (parse_iter sc op l) (parse_iter sc opts' l')"
    using "1.prems"(2-5) by (intro parse_iter_same) simp_all
  show ?case
  proof (cases "position (prevState l) < en")
    case True
    from pi show ?thesis
    proof (cases rule: rel_sumE)
      case (Inl a b)
      with True eq ps show ?thesis
        by (subst parse_loop.simps) auto
    next
      case (Inr l1 l1')
      with True eq have f: "f sc op en l1 = Some r" by simp
      from "1.prems"(1) True Inr have g: "parse_loop sc op en l1 = Some r"
        by (subst (asm) parse_loop.simps) simp
      from IH [OF f g Inr(3) "1.prems"(3-5)]
      obtain r' where "parse_loop sc opts' en l1' = Some r'" "rel_sum (=) same_loop r r'"
        by blast
      with True Inr ps show ?thesis
        by (subst parse_loop.simps) auto
    qed
  next
    case False
    with eq ps \<open>same_loop l l'\<close> show ?thesis
      by (subst parse_loop.simps) auto
  qed
qed (rule run)


lemma parse_finish_same: "same_loop l l' \<Longrightarrow> parse_finish l = parse_finish l'"
  by (cases "statementParser l"; cases "statementParser l'")
    (auto simp add: same_loop_def parse_finish_def same_but_dialect_def Let_def)

text \<open>
  Claim C6, as stated, fails: \<^verbatim>\<open>parse\<close> never looks its dialect up in \<^verbatim>\<open>DIALECTS\<close>. With the
  dialect \<^verbatim>\<open>oracle\<close> the input \<^verbatim>\<open>SELECT 1; DELETE FROM t\<close> is parsed into its two
  statements and no error is raised.
\<close>

theorem unlisted_dialect_not_rejected:
  "''oracle'' \<notin> set DIALECTS
   \<and> map_option (map_sum id (map type_stmt \<circ> body))
       (parse (scan_tokens select_delete_tokens) select_delete_input True ''oracle'')
     = Some (Inr [Some ''SELECT'', Some ''DELETE''])"
  by (simp add: parser_eval select_delete_tokens_def select_delete_input_def DIALECTS_def)

text \<open>
  Claim C6, amended. \<^verbatim>\<open>parse\<close> does not check its dialect: called with a dialect outside
  \<^verbatim>\<open>mssql\<close>, \<^verbatim>\<open>sqlite\<close>, \<^verbatim>\<open>mysql\<close>, \<^verbatim>\<open>psql\<close>, \<^verbatim>\<open>generic\<close> it does, for every scanner, input
  and strictness flag, exactly what it does for \<^verbatim>\<open>generic\<close>: the same result, the same
  error, or the same endless loop.
\<close>

theorem unlisted_dialect_is_generic:
  assumes "dia \<notin> set DIALECTS"
  shows "parse scanToken inp strict dia = parse scanToken inp strict ''generic''"
proof -
  let ?od = "\<lparr>isStrict_opt = strict, dialect_opt = dia\<rparr>"
  let ?og = "\<lparr>isStrict_opt = strict, dialect_opt = ''generic''\<rparr>"
  let ?e = "end_st (initState_input inp)"
  let ?l0 = "\<lparr>prevState = initState_input inp, statementParser = None,
              topLevelStatement = \<lparr>type_res = ''QUERY'', start_res = 0,
                end_res = int (length inp) - 1, body = [], tokens = []\<rparr>\<rparr>"
  have pd: "plain_dialect (dialect_opt ?od)" "plain_dialect (dialect_opt ?og)"
    using assms by (simp_all add: plain_not_listed plain_generic)
  have st: "isStrict_opt ?od = isStrict_opt ?og" "isStrict_opt ?og = isStrict_opt ?od"
    by simp_all
  have s0: "same_loop ?l0 ?l0" by (simp add: same_loop_def)
  have fin: "(case r of Inl e \<Rightarrow> Some (Inl e) | Inr l \<Rightarrow> Some (Inr (parse_finish l)))
             = (case r' of Inl e \<Rightarrow> Some (Inl e) | Inr l \<Rightarrow> Some (Inr (parse_finish l)))"
    if "rel_sum (=) same_loop r r'" for r r' :: "error + loop"
    using that by (cases rule: rel_sumE) (simp_all add: parse_finish_same)
  show ?thesis
  proof (cases "parse_loop scanToken ?od ?e ?l0")
    case None
    have "parse_loop scanToken ?og ?e ?l0 = None"
    proof (rule ccontr)
      assume "parse_loop scanToken ?og ?e ?l0 \<noteq> None"
      then obtain r where "parse_loop scanToken ?og ?e ?l0 = Some r" by auto
      from parse_loop_same [OF this s0 pd(2) pd(1) st(2)] None show False by simp
    qed
    with None show ?thesis by (simp add: parse_def Let_def)
  next
    case (Some r)
    from parse_loop_same [OF Some s0 pd st(1)]
    obtain r' where r': "parse_loop scanToken ?og ?e ?l0 = Some r'"
      "rel_sum (=) same_loop r r'" by blast
    from fin [OF r'(2)] Some r'(1) show ?thesis
      by (simp add: parse_def Let_def sum.case_eq_if)
  qed
qed

text \<open>
  The dialect \<^verbatim>\<open>oracle\<close> is not listed, and \<^verbatim>\<open>SELECT 1; DELETE FROM t\<close> is parsed under it
  as under \<^verbatim>\<open>generic\<close>.
\<close>

theorem unlisted_dialect_is_generic_witness:
  "''oracle'' \<notin> set DIALECTS
   \<and> parse (scan_tokens select_delete_tokens) select_delete_input True ''oracle''
     = parse (scan_tokens select_delete_tokens) select_delete_input True ''generic''"
proof -
  have d: "''oracle'' \<notin> set DIALECTS" by (simp add: DIALECTS_def)
  from unlisted_dialect_is_generic [OF d] d show ?thesis by simp
qed

end
